theory Spec2Isabelle
  imports Main "HOL-Library.Word" "HOL-Library.Char_ord" "HOL-Library.List_Lexorder"
    "HOL-Library.Multiset"
begin

section \<open>Strings\<close>

text \<open>
  A JavaScript string is a sequence of UTF-16 code units. The model keeps the code units
  below 256 (the Latin-1 range), one \<^typ>\<open>char\<close> each, so that \<open>length\<close> is the
  source's \<open>.length\<close> and the order of \<^typ>\<open>string\<close> is the source's \<open><=\<close> on strings
  (lexicographic by code unit).
\<close>

definition isWhiteSpace :: "char \<Rightarrow> bool" where
  \<comment> \<open>WhiteSpace and LineTerminator code units below 256: TAB, LF, VT, FF, CR, SP, NBSP.\<close>
  "isWhiteSpace c = (of_char c \<in> set [9, 10, 11, 12, 13, 32, 160 :: nat])"

definition trim :: "string \<Rightarrow> string" where
  \<comment> \<open>\<open>String.prototype.trim\<close>\<close>
  "trim s = rev (dropWhile isWhiteSpace (rev (dropWhile isWhiteSpace s)))"

definition lowerChar :: "char \<Rightarrow> char" where
  \<comment> \<open>A-Z, and the Latin-1 capitals U+00C0..U+00DE without the multiplication sign.\<close>
  "lowerChar c =
     (let n = of_char c :: nat
      in if (65 \<le> n \<and> n \<le> 90) \<or> (192 \<le> n \<and> n \<le> 222 \<and> n \<noteq> 215)
         then char_of (n + 32) else c)"

definition toLowerCase :: "string \<Rightarrow> string" where
  "toLowerCase s = map lowerChar s"

definition normalizeUsername :: "string \<Rightarrow> string" where
  \<comment> \<open>\<open>return value.trim().toLowerCase();\<close>\<close>
  "normalizeUsername v = toLowerCase (trim v)"

section \<open>JSON values, objects and stored text\<close>

text \<open>
  What \<open>JSON.parse\<close> can return. Numbers are kept as integers: the code only asks a number
  for its type and whether it is zero, and hands it to \<open>Date\<close>.
  An object is its list of own properties; the first binding of a key is the property.
\<close>

datatype json =
    JNull
  | JBool bool
  | JNum int
  | JStr string
  | JArr "json list"
  | JObj "(string \<times> json) list"

text \<open>
  The result of reading a property: \<open>undefined\<close>, a JSON value, or a member that every
  ordinary object inherits from \<open>Object.prototype\<close> (a built-in function, or the prototype
  object itself under \<open>__proto__\<close>). The objects the code reads are made by an object
  literal or by \<open>JSON.parse\<close>, so \<open>obj[key]\<close> walks to \<open>Object.prototype\<close> when \<open>obj\<close> has no
  own property \<open>key\<close>.
\<close>

datatype jsval = Undefined | Builtin | Val json

definition Object_prototype_keys :: "string list" where
  "Object_prototype_keys =
     [''constructor'', ''__proto__'', ''hasOwnProperty'', ''isPrototypeOf'',
      ''propertyIsEnumerable'', ''toLocaleString'', ''toString'', ''valueOf'',
      ''__defineGetter__'', ''__defineSetter__'', ''__lookupGetter__'', ''__lookupSetter__'']"

definition Get :: "(string \<times> json) list \<Rightarrow> string \<Rightarrow> jsval" where
  \<comment> \<open>\<open>obj[key]\<close> on an ordinary object with own properties \<open>ps\<close>\<close>
  "Get ps k =
     (case map_of ps k of
        Some v \<Rightarrow> Val v
      | None \<Rightarrow> if k \<in> set Object_prototype_keys then Builtin else Undefined)"

fun member :: "jsval \<Rightarrow> string \<Rightarrow> jsval" where
  \<comment> \<open>\<open>v.name\<close> for the fixed names the code reads (\<open>id\<close>, \<open>title\<close>, \<open>passwordHash\<close>,
      \<open>displayName\<close>, ...): no primitive wrapper, array or built-in has such a member.\<close>
  "member (Val (JObj ps)) k = Get ps k"
| "member _ k = Undefined"

fun truthy :: "json \<Rightarrow> bool" where
  "truthy JNull = False"
| "truthy (JBool b) = b"
| "truthy (JNum n) = (n \<noteq> 0)"
| "truthy (JStr s) = (s \<noteq> [])"
| "truthy (JArr xs) = True"
| "truthy (JObj ps) = True"

fun ToBoolean :: "jsval \<Rightarrow> bool" where
  "ToBoolean Undefined = False"
| "ToBoolean Builtin = True"
| "ToBoolean (Val v) = truthy v"

fun set_prop :: "string \<Rightarrow> json \<Rightarrow> (string \<times> json) list \<Rightarrow> (string \<times> json) list" where
  \<comment> \<open>\<open>obj[key] = value\<close>: overwrite the own property, or add it.\<close>
  "set_prop k v [] = [(k, v)]"
| "set_prop k v ((k', v') # ps) = (if k = k' then (k, v) # ps else (k', v') # set_prop k v ps)"

text \<open>
  A string held in \<open>localStorage\<close> is represented by what \<open>JSON.parse\<close> makes of it:
  the empty string, a non-empty text that \<open>JSON.parse\<close> rejects, or a text that it reads as
  a JSON value. \<open>JSON.stringify\<close> of a JSON value is a text that reads back as that value.
\<close>

datatype stored_text = Blank | Malformed | Encodes json

type_synonym localStorage = "string \<rightharpoonup> stored_text"

datatype error = Error string | SyntaxError | RangeError | TypeError

definition JSON_parse :: "stored_text \<Rightarrow> error + json" where
  "JSON_parse raw = (case raw of Encodes j \<Rightarrow> Inr j | _ \<Rightarrow> Inl SyntaxError)"

definition JSON_stringify :: "json \<Rightarrow> stored_text" where
  "JSON_stringify j = Encodes j"

definition USERS_KEY :: string where
  "USERS_KEY = ''todo.users.v1''"

definition SESSION_KEY :: string where
  "SESSION_KEY = ''todo.session.v1''"

definition TASK_KEY_PREFIX :: string where
  "TASK_KEY_PREFIX = ''todo.tasks.v1.''"

section \<open>Credential store\<close>

text \<open>
  The source raises plain \<open>Error\<close> objects that differ in their message only. The error
  classes of the specification are read off the message.
\<close>

definition ValidationError :: "error \<Rightarrow> bool" where
  "ValidationError e =
     (e \<in> set [Error ''Username must be at least 3 characters long.'',
               Error ''Password must be at least 6 characters long.'',
               Error ''Username is required.'',
               Error ''Enter your username to sign in.''])"

definition ConflictError :: "error \<Rightarrow> bool" where
  "ConflictError e = (e = Error ''That username is already taken.'')"

definition NotFoundError :: "error \<Rightarrow> bool" where
  "NotFoundError e = (e = Error ''Account not found.'')"

definition InvalidCredentialError :: "error \<Rightarrow> bool" where
  "InvalidCredentialError e = (e = Error ''Incorrect password.'')"

type_synonym byte = "8 word"

text \<open>
  What \<open>hashPassword\<close> finds in its host: the SHA-256 primitive of
  \<open>window.crypto.subtle\<close> (present together with \<open>TextEncoder\<close>, or not at all), and
  whether \<open>window.btoa\<close> exists.
\<close>

record env =
  subtle_digest :: "(byte list \<Rightarrow> byte list) option"
  has_btoa :: bool

definition utf8 :: "string \<Rightarrow> byte list" where
  \<comment> \<open>\<open>TextEncoder.encode\<close> on code units below 256: one byte below 128, two bytes above.\<close>
  "utf8 s = concat (map (\<lambda>c. let n = of_char c :: nat
                              in if n < 128 then [of_nat n]
                                 else [of_nat (192 + n div 64), of_nat (128 + n mod 64)]) s)"

definition hexDigits :: string where
  "hexDigits = ''0123456789abcdef''"

definition hexDigit :: "nat \<Rightarrow> char" where
  "hexDigit n = hexDigits ! (n mod 16)"

definition hex2 :: "byte \<Rightarrow> string" where
  \<comment> \<open>\<open>byte.toString(16).padStart(2, '0')\<close>\<close>
  "hex2 b = [hexDigit (unat b div 16), hexDigit (unat b mod 16)]"

definition b64Char :: "nat \<Rightarrow> char" where
  "b64Char n =
     ''ABCDEFGHIJKLMNOPQRSTUVWXYZabcdefghijklmnopqrstuvwxyz0123456789+/'' ! (n mod 64)"

fun base64 :: "nat list \<Rightarrow> string" where
  "base64 (a # b # c # rest) =
     [b64Char (a div 4), b64Char ((a mod 4) * 16 + b div 16),
      b64Char ((b mod 16) * 4 + c div 64), b64Char (c mod 64)] @ base64 rest"
| "base64 [a, b] =
     [b64Char (a div 4), b64Char ((a mod 4) * 16 + b div 16), b64Char ((b mod 16) * 4), CHR ''='']"
| "base64 [a] = [b64Char (a div 4), b64Char ((a mod 4) * 16), CHR ''='', CHR ''='']"
| "base64 [] = []"

definition btoa :: "byte list \<Rightarrow> string" where
  \<comment> \<open>\<open>window.btoa(unescape(encodeURIComponent(password)))\<close>: Base64 of the UTF-8 bytes.\<close>
  "btoa bs = base64 (map unat bs)"

definition lower_hex :: "string \<Rightarrow> bool" where
  \<comment> \<open>a string of the digits \<open>0-9a-f\<close>\<close>
  "lower_hex s = list_all (\<lambda>c. c \<in> set hexDigits) s"

definition hashPassword :: "env \<Rightarrow> string \<Rightarrow> string" where
  \<comment> \<open>Without \<open>btoa\<close> the call raises a TypeError; the \<open>catch\<close> returns the password.\<close>
  "hashPassword e password =
     (case subtle_digest e of
        Some digest \<Rightarrow> concat (map hex2 (digest (utf8 password)))
      | None \<Rightarrow> if has_btoa e then btoa (utf8 password) else password)"

text \<open>
  The account object \<open>{ id, displayName }\<close>. It has no field for the hash. The display
  name is whatever the \<open>||\<close> chain of the source selects, a string for every record that
  \<open>registerUser\<close> wrote.
\<close>

record account =
  accountId :: string
  displayName :: jsval

definition or_else :: "jsval \<Rightarrow> jsval \<Rightarrow> jsval" where
  \<comment> \<open>\<open>a || b\<close>\<close>
  "or_else a b = (if ToBoolean a then a else b)"

definition loadUsers :: "localStorage \<Rightarrow> (string \<times> json) list" where
  "loadUsers ls =
     (case ls USERS_KEY of
        None \<Rightarrow> []
      | Some raw \<Rightarrow>
          if raw = Blank then []
          else (case JSON_parse raw of
                  Inl err \<Rightarrow> []
                | Inr parsed \<Rightarrow> (case parsed of JObj ps \<Rightarrow> ps | _ \<Rightarrow> [])))"

definition saveUsers :: "localStorage \<Rightarrow> (string \<times> json) list \<Rightarrow> localStorage" where
  "saveUsers ls users = ls(USERS_KEY \<mapsto> JSON_stringify (JObj users))"

definition registerUser ::
  "env \<Rightarrow> string \<Rightarrow> localStorage \<Rightarrow> string \<Rightarrow> string \<Rightarrow> (error + account) \<times> localStorage" where
  \<comment> \<open>\<open>now\<close> is \<open>new Date().toISOString()\<close>. The result pairs what the call returns or
      throws with the storage it leaves behind.\<close>
  "registerUser e now ls username password =
     (let cleanName = trim username in
      if length cleanName < 3
      then (Inl (Error ''Username must be at least 3 characters long.''), ls)
      else if length password < 6
      then (Inl (Error ''Password must be at least 6 characters long.''), ls)
      else
        let normalized = normalizeUsername cleanName in
        if normalized = [] then (Inl (Error ''Username is required.''), ls)
        else
          let users = loadUsers ls in
          if ToBoolean (Get users normalized)
          then (Inl (Error ''That username is already taken.''), ls)
          else
            let passwordHash = hashPassword e password;
                users' = set_prop normalized
                           (JObj [(''passwordHash'', JStr passwordHash),
                                  (''displayName'', JStr cleanName),
                                  (''createdAt'', JStr now)]) users
            in (Inr \<lparr>accountId = normalized, displayName = Val (JStr cleanName)\<rparr>,
                saveUsers ls users'))"

definition has_account :: "localStorage \<Rightarrow> string \<Rightarrow> bool" where
  \<comment> \<open>the users table holds a record under the key\<close>
  "has_account ls k = (case map_of (loadUsers ls) k of None \<Rightarrow> False | Some r \<Rightarrow> truthy r)"

definition authenticateUser :: "env \<Rightarrow> localStorage \<Rightarrow> string \<Rightarrow> string \<Rightarrow> error + account" where
  "authenticateUser e ls username password =
     (let cleanName = trim username;
          normalized = normalizeUsername cleanName in
      if normalized = [] then Inl (Error ''Enter your username to sign in.'')
      else
        let users = loadUsers ls;
            record = Get users normalized in
        if \<not> ToBoolean record then Inl (Error ''Account not found.'')
        else
          let passwordHash = hashPassword e password in
          if member record ''passwordHash'' \<noteq> Val (JStr passwordHash)
          then Inl (Error ''Incorrect password.'')
          else
            let displayName = or_else (member record ''displayName'') (Val (JStr cleanName))
            in Inr \<lparr>accountId = normalized, displayName = displayName\<rparr>)"

section \<open>Numbers, dates and the calendar\<close>

text \<open>
  Time values, day numbers and what the getters of a \<open>Date\<close> return are integers or
  \<open>NaN\<close>: a \<open>number\<close>, with \<open>None\<close> for \<open>NaN\<close>. \<open>Number(s)\<close> can be any double, so
  its results are of the type \<open>double\<close>: \<open>Double m e\<close> is the number \<open>m * 2 ^ e\<close>. The two
  zeros are not told apart: the code only asks a number whether it is falsy, subtracts
  from it and hands it to \<open>Date\<close>, which truncates it.
\<close>

type_synonym number = "int option"

datatype double = Not_a_Number | Double int int | Plus_Infinity | Minus_Infinity

function bit_length :: "int \<Rightarrow> int" where
  "bit_length n = (if n \<le> 0 then 0 else 1 + bit_length (n div 2))"
  by auto
termination
  by (relation "measure nat") auto

definition round_half_even :: "int \<Rightarrow> int \<Rightarrow> int" where
  \<comment> \<open>the integer nearest to \<open>num / den\<close> for \<open>den > 0\<close>, the even one of two\<close>
  "round_half_even num den =
     (let n = num div den; r = num mod den
      in if den < 2 * r \<or> (2 * r = den \<and> odd n) then n + 1 else n)"

definition floor_log2 :: "int \<Rightarrow> int \<Rightarrow> int" where
  \<comment> \<open>for \<open>p, q > 0\<close>: the \<open>e\<close> with \<open>2 ^ e \<le> p / q < 2 ^ (e + 1)\<close>\<close>
  "floor_log2 p q =
     (let d = bit_length p - bit_length q
      in if (if 0 \<le> d then q * 2 ^ nat d \<le> p else q \<le> p * 2 ^ nat (- d)) then d else d - 1)"

definition round_positive :: "int \<Rightarrow> int \<Rightarrow> double" where
  \<comment> \<open>\<open>p / q\<close> for \<open>p, q > 0\<close> as a double: 53 bits from the leading one, fewer below
      \<open>2 ^ - 1022\<close>, ties to even, \<open>Infinity\<close> from \<open>2 ^ 1024\<close>\<close>
  "round_positive p q =
     (let e = max (floor_log2 p q) (- 1022) - 52;
          n = (if 0 \<le> e then round_half_even p (q * 2 ^ nat e)
               else round_half_even (p * 2 ^ nat (- e)) q)
      in if 971 < e \<or> (e = 971 \<and> 2 ^ 53 \<le> n) then Plus_Infinity else Double n e)"

definition negative :: "double \<Rightarrow> double" where
  "negative x =
     (case x of
        Double m e \<Rightarrow> Double (- m) e
      | Plus_Infinity \<Rightarrow> Minus_Infinity
      | Minus_Infinity \<Rightarrow> Plus_Infinity
      | Not_a_Number \<Rightarrow> Not_a_Number)"

definition round_double :: "int \<Rightarrow> int \<Rightarrow> double" where
  \<comment> \<open>the double nearest to \<open>p / q\<close>, for \<open>q > 0\<close>; an integer up to \<open>2 ^ 53\<close> in
      magnitude is a double\<close>
  "round_double p q =
     (if q dvd p \<and> \<bar>p div q\<bar> \<le> 2 ^ 53 then Double (p div q) 0
      else if p < 0 then negative (round_positive (- p) q)
      else round_positive p q)"

definition scaled :: "int \<Rightarrow> int \<Rightarrow> double" where
  \<comment> \<open>the double nearest to \<open>n * 2 ^ e\<close>\<close>
  "scaled n e = (if 0 \<le> e then round_double (n * 2 ^ nat e) 1 else round_double n (2 ^ nat (- e)))"

definition minus_double :: "double \<Rightarrow> double \<Rightarrow> double" where
  \<comment> \<open>\<open>x - y\<close>\<close>
  "minus_double x y =
     (case (x, y) of
        (Not_a_Number, _) \<Rightarrow> Not_a_Number
      | (_, Not_a_Number) \<Rightarrow> Not_a_Number
      | (Double m e, Double m' e') \<Rightarrow>
          (let k = min e e' in scaled (m * 2 ^ nat (e - k) - m' * 2 ^ nat (e' - k)) k)
      | (Double m e, Plus_Infinity) \<Rightarrow> Minus_Infinity
      | (Double m e, Minus_Infinity) \<Rightarrow> Plus_Infinity
      | (Plus_Infinity, Plus_Infinity) \<Rightarrow> Not_a_Number
      | (Plus_Infinity, _) \<Rightarrow> Plus_Infinity
      | (Minus_Infinity, Minus_Infinity) \<Rightarrow> Not_a_Number
      | (Minus_Infinity, _) \<Rightarrow> Minus_Infinity)"

definition ToIntegerOrInfinity :: "double \<Rightarrow> number" where
  \<comment> \<open>of a finite number: its integer part, rounded towards zero. \<open>None\<close> is for the
      numbers that are not finite, which every caller turns into an invalid date.\<close>
  "ToIntegerOrInfinity x =
     (case x of
        Double m e \<Rightarrow>
          Some (if 0 \<le> e then m * 2 ^ nat e
                else if 0 \<le> m then m div 2 ^ nat (- e)
                else - ((- m) div 2 ^ nat (- e)))
      | _ \<Rightarrow> None)"

definition falsy :: "double \<Rightarrow> bool" where
  \<comment> \<open>\<open>!x\<close> for a number: zero and \<open>NaN\<close>\<close>
  "falsy x = (case x of Not_a_Number \<Rightarrow> True | Double m e \<Rightarrow> m = 0 | _ \<Rightarrow> False)"

text \<open>
  \<open>ToNumber\<close> is \<open>Number(s)\<close> for a string, after the grammar of ECMAScript's string
  numeric literals: white space around the literal is dropped and the empty text is 0; a
  decimal literal has an optional sign, digits with an optional fraction and exponent, or
  is \<open>Infinity\<close>; a binary, octal or hexadecimal literal has its prefix and no sign;
  every other text is \<open>NaN\<close>.
\<close>

definition isDigit :: "char \<Rightarrow> bool" where
  "isDigit c = (48 \<le> (of_char c :: int) \<and> (of_char c :: int) \<le> 57)"

definition decimal_value :: "string \<Rightarrow> int" where
  "decimal_value s = foldl (\<lambda>a c. 10 * a + (of_char c - 48)) 0 s"

definition decimal_digits :: "string \<Rightarrow> number" where
  \<comment> \<open>the value of a run of decimal digits, and \<open>None\<close> for every other text\<close>
  "decimal_digits s = (if list_all isDigit s then Some (decimal_value s) else None)"

definition digit_of :: "char \<Rightarrow> int" where
  \<comment> \<open>the value of a digit or letter as a digit of a radix up to 16; 16 for other characters\<close>
  "digit_of c =
     (let n = of_char c :: int
      in if 48 \<le> n \<and> n \<le> 57 then n - 48
         else if 97 \<le> n \<and> n \<le> 102 then n - 87
         else if 65 \<le> n \<and> n \<le> 70 then n - 55
         else 16)"

definition radix_literal :: "int \<Rightarrow> string \<Rightarrow> double" where
  \<comment> \<open>the digits after a prefix \<open>0b\<close>, \<open>0o\<close> or \<open>0x\<close>\<close>
  "radix_literal b s =
     (if s \<noteq> [] \<and> list_all (\<lambda>c. digit_of c < b) s
      then round_double (foldl (\<lambda>a c. b * a + digit_of c) 0 s) 1
      else Not_a_Number)"

definition exponent_part :: "string \<Rightarrow> number" where
  \<comment> \<open>the exponent that a text after the digits stands for: 0 for no text, \<open>None\<close> for a
      text that is no exponent part\<close>
  "exponent_part s =
     (case s of
        [] \<Rightarrow> Some 0
      | c # r \<Rightarrow>
          if c = CHR ''e'' \<or> c = CHR ''E''
          then
            (case r of
               [] \<Rightarrow> None
             | c' # r' \<Rightarrow>
                 if c' = CHR ''+'' then (if r' = [] then None else decimal_digits r')
                 else if c' = CHR ''-''
                 then (if r' = [] then None else map_option uminus (decimal_digits r'))
                 else decimal_digits r)
          else None)"

definition power_of_ten :: "int \<Rightarrow> int \<Rightarrow> double" where
  \<comment> \<open>the double nearest to \<open>d * 10 ^ k\<close>\<close>
  "power_of_ten d k =
     (if 0 \<le> k then round_double (d * 10 ^ nat k) 1 else round_double d (10 ^ nat (- k)))"

definition unsigned_literal :: "string \<Rightarrow> double" where
  "unsigned_literal s =
     (if s = ''Infinity'' then Plus_Infinity
      else
        let whole = takeWhile isDigit s;
            r = dropWhile isDigit s;
            point = (r \<noteq> [] \<and> hd r = CHR ''.'');
            fraction = (if point then takeWhile isDigit (tl r) else []);
            rest = (if point then dropWhile isDigit (tl r) else r)
        in if whole = [] \<and> fraction = [] then Not_a_Number
           else (case exponent_part rest of
                   None \<Rightarrow> Not_a_Number
                 | Some k \<Rightarrow>
                     power_of_ten (decimal_value (whole @ fraction)) (k - int (length fraction))))"

definition prefixed :: "string \<Rightarrow> char \<Rightarrow> char \<Rightarrow> bool" where
  "prefixed s lower upper =
     (case s of
        c # c' # r \<Rightarrow> c = CHR ''0'' \<and> (c' = lower \<or> c' = upper)
      | _ \<Rightarrow> False)"

definition ToNumber :: "string \<Rightarrow> double" where
  "ToNumber str =
     (let s = trim str
      in if s = [] then Double 0 0
         else if prefixed s CHR ''b'' CHR ''B'' then radix_literal 2 (drop 2 s)
         else if prefixed s CHR ''o'' CHR ''O'' then radix_literal 8 (drop 2 s)
         else if prefixed s CHR ''x'' CHR ''X'' then radix_literal 16 (drop 2 s)
         else if hd s = CHR ''+'' then unsigned_literal (tl s)
         else if hd s = CHR ''-'' then negative (unsigned_literal (tl s))
         else unsigned_literal s)"

fun dec :: "nat \<Rightarrow> int \<Rightarrow> string" where
  \<comment> \<open>the last \<open>k\<close> decimal digits of \<open>n\<close>, zero-padded\<close>
  "dec 0 n = []"
| "dec (Suc k) n = dec k (n div 10) @ [char_of (48 + n mod 10)]"

fun split_on :: "char \<Rightarrow> string \<Rightarrow> string list" where
  \<comment> \<open>\<open>s.split(c)\<close> for a one-character separator\<close>
  "split_on c [] = [[]]"
| "split_on c (x # xs) =
     (if x = c then [] # split_on c xs
      else (case split_on c xs of [] \<Rightarrow> [[x]] | w # ws \<Rightarrow> (x # w) # ws))"

text \<open>
  Days are counted from 1970-01-01, as ECMAScript's \<open>Day(t)\<close>. \<open>civil\<close> gives the year,
  the month (1 to 12) and the day of the month of a day number in the proleptic Gregorian
  calendar; it counts in 400-year eras whose years start in March. \<open>days_from_civil\<close> is
  the day number of a date, also for a day of the month outside the month (a day count
  from the first of the month), which is what \<open>MakeDay\<close> needs.
\<close>

definition civil :: "int \<Rightarrow> int \<times> int \<times> int" where
  "civil n =
     (let z = n + 719468;
          era = z div 146097;
          doe = z mod 146097;
          c = min 3 (doe div 36524);
          doc = doe - c * 36524;
          q = doc div 1461;
          doq = doc mod 1461;
          yq = min 3 (doq div 365);
          doy = doq - yq * 365;
          mp = (5 * doy + 2) div 153;
          d = doy - (153 * mp + 2) div 5 + 1;
          m = (if mp < 10 then mp + 3 else mp - 9);
          y = era * 400 + c * 100 + q * 4 + yq + (if m \<le> 2 then 1 else 0)
      in (y, m, d))"

definition days_from_civil :: "int \<Rightarrow> int \<Rightarrow> int \<Rightarrow> int" where
  "days_from_civil y m d =
     (let y' = (if m \<le> 2 then y - 1 else y);
          era = y' div 400;
          yoe = y' mod 400;
          mp = (if m > 2 then m - 3 else m + 9);
          doy = (153 * mp + 2) div 5 + d - 1;
          doe = yoe * 365 + yoe div 4 - yoe div 100 + doy
      in era * 146097 + doe - 719468)"

definition msPerDay :: int where
  "msPerDay = 86400000"

definition Day :: "int \<Rightarrow> int" where
  "Day t = t div msPerDay"

definition TimeWithinDay :: "int \<Rightarrow> int" where
  "TimeWithinDay t = t mod msPerDay"

definition YearFromTime :: "int \<Rightarrow> int" where
  "YearFromTime t = fst (civil (Day t))"

definition MonthFromTime :: "int \<Rightarrow> int" where
  \<comment> \<open>0 is January\<close>
  "MonthFromTime t = fst (snd (civil (Day t))) - 1"

definition DateFromTime :: "int \<Rightarrow> int" where
  "DateFromTime t = snd (snd (civil (Day t)))"

definition WeekDay :: "int \<Rightarrow> int" where
  \<comment> \<open>0 is Sunday; day 0 was a Thursday\<close>
  "WeekDay t = (Day t + 4) mod 7"

definition MakeDay :: "int \<Rightarrow> int \<Rightarrow> int \<Rightarrow> int" where
  "MakeDay year month date =
     days_from_civil (year + month div 12) (month mod 12 + 1) 1 + date - 1"

definition MakeDate :: "int \<Rightarrow> int \<Rightarrow> int" where
  "MakeDate day time = day * msPerDay + time"

definition TimeClip :: "int \<Rightarrow> number" where
  "TimeClip t = (if \<bar>t\<bar> \<le> 8640000000000000 then Some t else None)"

text \<open>
  The host's time zone is a parameter: \<open>LocalTZA_utc z t\<close> is the offset of local time
  from UTC, in milliseconds, in force at the UTC time value \<open>t\<close>, and \<open>LocalTZA_local z t\<close>
  is the offset by which the host reads the local time value \<open>t\<close> (ECMAScript's
  \<open>LocalTZA(t, true)\<close> and \<open>LocalTZA(t, false)\<close>). A zone without daylight saving time has
  one offset; \<open>switching_zone a b T\<close> has the offset \<open>a\<close> before the instant \<open>T\<close> and
  \<open>b\<close> from then on, and reads a local time that the switch skips or repeats with the
  offset before the switch, as ECMAScript says. \<open>Australia_Sydney_2024\<close> is Sydney around
  its switch to daylight time, at 02:00 on Sunday 6 October 2024 (16:00 UTC the day before),
  from ten to eleven hours ahead of UTC.
\<close>

record zone =
  LocalTZA_utc :: "int \<Rightarrow> int"
  LocalTZA_local :: "int \<Rightarrow> int"

definition fixed_zone :: "int \<Rightarrow> zone" where
  "fixed_zone c = \<lparr>LocalTZA_utc = (\<lambda>t. c), LocalTZA_local = (\<lambda>t. c)\<rparr>"

definition switching_zone :: "int \<Rightarrow> int \<Rightarrow> int \<Rightarrow> zone" where
  "switching_zone a b T =
     \<lparr>LocalTZA_utc = (\<lambda>t. if t < T then a else b),
      LocalTZA_local = (\<lambda>t. if t < T + max a b then a else b)\<rparr>"

definition Australia_Sydney_2024 :: zone where
  "Australia_Sydney_2024 = switching_zone 36000000 39600000 1728144000000"

definition msPerMinute :: int where
  "msPerMinute = 60000"

definition LocalTime :: "zone \<Rightarrow> int \<Rightarrow> int" where
  "LocalTime z t = t + LocalTZA_utc z t"

definition UTC :: "zone \<Rightarrow> int \<Rightarrow> int" where
  "UTC z t = t - LocalTZA_local z t"

definition HourFromTime :: "int \<Rightarrow> int" where
  "HourFromTime t = t div 3600000 mod 24"

definition MinFromTime :: "int \<Rightarrow> int" where
  "MinFromTime t = t div 60000 mod 60"

definition SecFromTime :: "int \<Rightarrow> int" where
  "SecFromTime t = t div 1000 mod 60"

definition msFromTime :: "int \<Rightarrow> int" where
  "msFromTime t = t mod 1000"

definition MakeTime :: "int \<Rightarrow> int \<Rightarrow> int \<Rightarrow> int \<Rightarrow> int" where
  "MakeTime hour minute sec ms = hour * 3600000 + minute * 60000 + sec * 1000 + ms"

text \<open>
  A \<open>Date\<close> object is its time value, in milliseconds of UTC, \<open>None\<close> for an invalid
  date. The setters and getters of the source are the local ones: they read the time value
  through \<open>LocalTime\<close> and store their result through \<open>UTC\<close> and \<open>TimeClip\<close>.
  \<open>toISOString\<close> prints a time value as it is.
\<close>

type_synonym Date = "int option"

definition setFullYear :: "zone \<Rightarrow> Date \<Rightarrow> double \<Rightarrow> double \<Rightarrow> double \<Rightarrow> Date" where
  "setFullYear z this year month date =
     (case (ToIntegerOrInfinity year, ToIntegerOrInfinity month, ToIntegerOrInfinity date) of
        (Some y, Some m, Some dt) \<Rightarrow>
          (let t = (case this of None \<Rightarrow> 0 | Some t \<Rightarrow> LocalTime z t)
           in TimeClip (UTC z (MakeDate (MakeDay y m dt) (TimeWithinDay t))))
      | _ \<Rightarrow> None)"

definition setHours0 :: "zone \<Rightarrow> Date \<Rightarrow> Date" where
  \<comment> \<open>\<open>d.setHours(0, 0, 0, 0)\<close>\<close>
  "setHours0 z this =
     (case this of
        None \<Rightarrow> None
      | Some t \<Rightarrow> TimeClip (UTC z (MakeDate (Day (LocalTime z t)) (MakeTime 0 0 0 0))))"

definition getDay :: "zone \<Rightarrow> Date \<Rightarrow> number" where
  "getDay z this = map_option (\<lambda>t. WeekDay (LocalTime z t)) this"

definition getDate :: "zone \<Rightarrow> Date \<Rightarrow> number" where
  "getDate z this = map_option (\<lambda>t. DateFromTime (LocalTime z t)) this"

definition setDate :: "zone \<Rightarrow> Date \<Rightarrow> number \<Rightarrow> Date" where
  "setDate z this date =
     (case (this, date) of
        (Some t, Some dt) \<Rightarrow>
          (let t' = LocalTime z t
           in TimeClip (UTC z (MakeDate (MakeDay (YearFromTime t') (MonthFromTime t') dt)
                                 (TimeWithinDay t'))))
      | _ \<Rightarrow> None)"

definition getMinutes :: "zone \<Rightarrow> Date \<Rightarrow> double" where
  "getMinutes z this =
     (case this of None \<Rightarrow> Not_a_Number | Some t \<Rightarrow> Double (MinFromTime (LocalTime z t)) 0)"

definition getTimezoneOffset :: "zone \<Rightarrow> Date \<Rightarrow> double" where
  \<comment> \<open>\<open>(t - LocalTime(t)) / msPerMinute\<close>\<close>
  "getTimezoneOffset z this =
     (case this of
        None \<Rightarrow> Not_a_Number
      | Some t \<Rightarrow> round_double (t - LocalTime z t) msPerMinute)"

definition setMinutes :: "zone \<Rightarrow> Date \<Rightarrow> double \<Rightarrow> Date" where
  "setMinutes z this minute =
     (case (this, ToIntegerOrInfinity minute) of
        (Some t, Some m) \<Rightarrow>
          (let t' = LocalTime z t
           in TimeClip (UTC z (MakeDate (Day t')
                                 (MakeTime (HourFromTime t') m (SecFromTime t') (msFromTime t')))))
      | _ \<Rightarrow> None)"

definition toISOString :: "int \<Rightarrow> string" where
  \<comment> \<open>of a valid time value; a year outside 0..9999 is printed with a sign and six digits\<close>
  "toISOString t =
     (let y = YearFromTime t; w = TimeWithinDay t
      in (if 0 \<le> y \<and> y \<le> 9999 then dec 4 y
          else (if y < 0 then ''-'' else ''+'') @ dec 6 \<bar>y\<bar>)
         @ ''-'' @ dec 2 (MonthFromTime t + 1)
         @ ''-'' @ dec 2 (DateFromTime t)
         @ ''T'' @ dec 2 (w div 3600000)
         @ '':'' @ dec 2 (w div 60000 mod 60)
         @ '':'' @ dec 2 (w div 1000 mod 60)
         @ ''.'' @ dec 3 (w mod 1000) @ ''Z'')"

definition part :: "double list \<Rightarrow> nat \<Rightarrow> double" where
  \<comment> \<open>\<open>parts[i]\<close>; beyond the end it is \<open>undefined\<close>, which \<open>|| 1\<close> and \<open>setFullYear\<close> treat
      as they treat \<open>NaN\<close>\<close>
  "part parts i = (if i < length parts then parts ! i else Not_a_Number)"

definition or_one :: "double \<Rightarrow> double" where
  \<comment> \<open>\<open>x || 1\<close>\<close>
  "or_one x = (if falsy x then Double 1 0 else x)"

definition parseISOToLocalDate :: "zone \<Rightarrow> int \<Rightarrow> string \<Rightarrow> Date" where
  \<comment> \<open>\<open>now\<close> is the time value of \<open>new Date()\<close>\<close>
  "parseISOToLocalDate z now isoStr =
     (if isoStr = [] then Some now
      else
        let parts = map ToNumber (split_on CHR ''-'' isoStr);
            d = setFullYear z (Some now) (part parts 0)
                  (minus_double (or_one (part parts 1)) (Double 1 0)) (or_one (part parts 2))
        in setHours0 z d)"

definition toISODateLocal :: "zone \<Rightarrow> Date \<Rightarrow> error + string" where
  \<comment> \<open>\<open>toISOString\<close> throws a RangeError on an invalid date.\<close>
  "toISODateLocal z d =
     (let copy = setMinutes z d (minus_double (getMinutes z d) (getTimezoneOffset z d))
      in case copy of None \<Rightarrow> Inl RangeError | Some t \<Rightarrow> Inr (take 10 (toISOString t)))"

definition plus_number :: "number \<Rightarrow> number \<Rightarrow> number" where
  "plus_number a b = (case (a, b) of (Some x, Some y) \<Rightarrow> Some (x + y) | _ \<Rightarrow> None)"

definition minus_number :: "number \<Rightarrow> number \<Rightarrow> number" where
  "minus_number a b = (case (a, b) of (Some x, Some y) \<Rightarrow> Some (x - y) | _ \<Rightarrow> None)"

definition addDaysISO :: "zone \<Rightarrow> int \<Rightarrow> string \<Rightarrow> int \<Rightarrow> error + string" where
  "addDaysISO z now isoStr delta =
     (let d = parseISOToLocalDate z now isoStr
      in toISODateLocal z (setDate z d (plus_number (getDate z d) (Some delta))))"

definition getWeekRangeISO :: "zone \<Rightarrow> int \<Rightarrow> string \<Rightarrow> error + (string \<times> string)" where
  "getWeekRangeISO z now anchorISO =
     (let d = parseISOToLocalDate z now anchorISO;
          day = getDay z d;
          deltaToMonday = map_option (\<lambda>k. if k = 0 then - 6 else 1 - k) day;
          monday = setDate z d (plus_number (getDate z d) deltaToMonday);
          sunday = setDate z monday (plus_number (getDate z monday) (Some 6))
      in case toISODateLocal z monday of
           Inl err \<Rightarrow> Inl err
         | Inr startStr \<Rightarrow>
             (case toISODateLocal z sunday of
                Inl err \<Rightarrow> Inl err
              | Inr endStr \<Rightarrow> Inr (startStr, endStr)))"

text \<open>
  The terms in which the week range is specified: the \<open>YYYY-MM-DD\<close> string of a day
  number (for a year from 0 to 9999), and the day number of the Monday on or before a day.
\<close>

definition isoDate :: "int \<Rightarrow> string" where
  "isoDate n =
     (case civil n of (y, m, d) \<Rightarrow> dec 4 y @ ''-'' @ dec 2 m @ ''-'' @ dec 2 d)"

definition year_of :: "int \<Rightarrow> int" where
  "year_of n = fst (civil n)"

definition four_digit_year :: "int \<Rightarrow> bool" where
  "four_digit_year n = (0 \<le> year_of n \<and> year_of n \<le> 9999)"

definition week_start :: "int \<Rightarrow> int" where
  "week_start n = n - (n + 3) mod 7"

text \<open>
  \<open>new Date(s).getTime()\<close> for a string \<open>s\<close> is the host's date parser. The functions
  that call it take it as the parameter \<open>tv\<close> (\<open>None\<close> for \<open>NaN\<close>). \<open>Date_parse_ISO\<close> is
  that parser on the two forms the code itself writes, \<open>YYYY-MM-DD\<close> (midnight UTC) and the
  output of \<open>toISOString\<close> with a four-digit year; it serves as the parser in the examples.
\<close>

definition Date_parse_ISO :: "string \<Rightarrow> number" where
  "Date_parse_ISO s =
     (case (decimal_digits (take 4 s), decimal_digits (take 2 (drop 5 s)),
            decimal_digits (take 2 (drop 8 s))) of
        (Some y, Some m, Some d) \<Rightarrow>
          if 10 \<le> length s \<and> s ! 4 = CHR ''-'' \<and> s ! 7 = CHR ''-''
             \<and> civil (days_from_civil y m d) = (y, m, d)
          then
            (if length s = 10 then Some (days_from_civil y m d * msPerDay)
             else
               (case (decimal_digits (take 2 (drop 11 s)), decimal_digits (take 2 (drop 14 s)),
                      decimal_digits (take 2 (drop 17 s)), decimal_digits (take 3 (drop 20 s))) of
                  (Some hh, Some mm, Some ss, Some ms) \<Rightarrow>
                    if length s = 24 \<and> s ! 10 = CHR ''T'' \<and> s ! 13 = CHR '':''
                       \<and> s ! 16 = CHR '':'' \<and> s ! 19 = CHR ''.'' \<and> s ! 23 = CHR ''Z''
                       \<and> hh < 24 \<and> mm < 60 \<and> ss < 60
                    then Some (days_from_civil y m d * msPerDay
                               + hh * 3600000 + mm * 60000 + ss * 1000 + ms)
                    else None
                | _ \<Rightarrow> None))
          else None
      | _ \<Rightarrow> None)"

section \<open>Task store\<close>

datatype priority = Low | Med | High

text \<open>
  A task in memory. \<open>description\<close>, \<open>dueAt\<close> and \<open>priority\<close> are \<open>undefined\<close> when
  \<open>None\<close>; the priorities are the strings \<open>'low'\<close>, \<open>'med'\<close> and \<open>'high'\<close>. The two
  time stamps and the due date are kept as the strings the source keeps.
\<close>

record task =
  taskId :: string
  title :: string
  completed :: bool
  description :: "string option"
  createdAt :: string
  updatedAt :: string
  dueAt :: "string option"
  priority :: "priority option"

fun digits_of :: "nat \<Rightarrow> string" where
  "digits_of n =
     (if n < 10 then [char_of (48 + n)] else digits_of (n div 10) @ [char_of (48 + n mod 10)])"

declare digits_of.simps [simp del]

definition join_comma :: "string list \<Rightarrow> string" where
  "join_comma ws = (case ws of [] \<Rightarrow> [] | w # rest \<Rightarrow> w @ concat (map (\<lambda>v. CHR '','' # v) rest))"

fun sequence :: "(error + 'a) list \<Rightarrow> error + 'a list" where
  \<comment> \<open>the results of a loop over a list, which the first exception ends\<close>
  "sequence [] = Inr []"
| "sequence (x # xs) =
     (case x of
        Inl err \<Rightarrow> Inl err
      | Inr v \<Rightarrow> (case sequence xs of Inl err \<Rightarrow> Inl err | Inr vs \<Rightarrow> Inr (v # vs)))"

fun ToString :: "json \<Rightarrow> error + string" where
  \<comment> \<open>\<open>String(v)\<close>, and the string that \<open>ToPrimitive\<close> gives for an array or an object.
      An integer below \<open>10^21\<close> in magnitude prints in decimal. An array joins its
      elements, \<open>null\<close> printing as the empty string there. An object prints through
      \<open>Object.prototype.toString\<close>, unless it has a property \<open>toString\<close> of its own: no
      JSON value can be called, and neither can the object's \<open>valueOf\<close> give a
      primitive, so the conversion throws a TypeError.\<close>
  "ToString JNull = Inr ''null''"
| "ToString (JBool b) = Inr (if b then ''true'' else ''false'')"
| "ToString (JNum n) =
     Inr (if n < 0 then CHR ''-'' # digits_of (nat (- n)) else digits_of (nat n))"
| "ToString (JStr s) = Inr s"
| "ToString (JArr xs) =
     (case sequence (map (\<lambda>x. if x = JNull then Inr [] else ToString x) xs) of
        Inl err \<Rightarrow> Inl err
      | Inr ws \<Rightarrow> Inr (join_comma ws))"
| "ToString (JObj ps) =
     (if ''toString'' \<in> set (map fst ps) then Inl TypeError else Inr ''[object Object]'')"

definition Date_from :: "(string \<Rightarrow> number) \<Rightarrow> json \<Rightarrow> error + number" where
  \<comment> \<open>the time value of \<open>new Date(value)\<close>: a string is parsed, a number, a boolean and
      \<open>null\<close> are the time value, an array or an object is parsed in its string form,
      when it has one\<close>
  "Date_from tv v =
     (case v of
        JStr s \<Rightarrow> Inr (tv s)
      | JNum n \<Rightarrow> Inr (TimeClip n)
      | JBool b \<Rightarrow> Inr (Some (if b then 1 else 0))
      | JNull \<Rightarrow> Inr (Some 0)
      | _ \<Rightarrow> (case ToString v of Inl err \<Rightarrow> Inl err | Inr s \<Rightarrow> Inr (tv s)))"

definition normalizeDate :: "(string \<Rightarrow> number) \<Rightarrow> jsval \<Rightarrow> error + string option" where
  \<comment> \<open>No caller passes a built-in member: \<open>dueAt\<close> is not inherited by any object.\<close>
  "normalizeDate tv v =
     (case v of
        Val j \<Rightarrow>
          if \<not> truthy j then Inr None
          else (case Date_from tv j of
                  Inl err \<Rightarrow> Inl err
                | Inr None \<Rightarrow> Inr None
                | Inr (Some t) \<Rightarrow> Inr (Some (take 10 (toISOString t))))
      | _ \<Rightarrow> Inr None)"

definition normalizePriority :: "jsval \<Rightarrow> priority option" where
  "normalizePriority v =
     (if v = Val (JStr ''low'') then Some Low
      else if v = Val (JStr ''med'') then Some Med
      else if v = Val (JStr ''high'') then Some High
      else None)"

definition is_object :: "json \<Rightarrow> bool" where
  \<comment> \<open>\<open>typeof v === 'object'\<close>, which holds of \<open>null\<close> and of arrays too\<close>
  "is_object v = (case v of JNull \<Rightarrow> True | JArr xs \<Rightarrow> True | JObj ps \<Rightarrow> True | _ \<Rightarrow> False)"

definition string_of :: "jsval \<Rightarrow> string option" where
  \<comment> \<open>\<open>Some s\<close> exactly when \<open>typeof v === 'string'\<close>\<close>
  "string_of v = (case v of Val (JStr s) \<Rightarrow> Some s | _ \<Rightarrow> None)"

definition normalizeTask :: "(string \<Rightarrow> number) \<Rightarrow> string \<Rightarrow> json \<Rightarrow> error + task option" where
  \<comment> \<open>\<open>now\<close> is \<open>new Date().toISOString()\<close>. An array passes the first test and fails
      the second: it has no \<open>id\<close>. What \<open>normalizeDate\<close> throws passes through.\<close>
  "normalizeTask tv now raw =
     (if \<not> truthy raw \<or> \<not> is_object raw then Inr None
      else
        (case (string_of (member (Val raw) ''id''), string_of (member (Val raw) ''title'')) of
           (Some i, Some ttl) \<Rightarrow>
             (case normalizeDate tv (member (Val raw) ''dueAt'') of
                Inl err \<Rightarrow> Inl err
              | Inr due \<Rightarrow>
                  Inr (Some \<lparr>taskId = i,
                            title = ttl,
                            completed = ToBoolean (member (Val raw) ''completed''),
                            description = string_of (member (Val raw) ''description''),
                            createdAt = (case string_of (member (Val raw) ''createdAt'') of
                                           Some s \<Rightarrow> s | None \<Rightarrow> now),
                            updatedAt = (case string_of (member (Val raw) ''updatedAt'') of
                                           Some s \<Rightarrow> s | None \<Rightarrow> now),
                            dueAt = due,
                            priority = normalizePriority (member (Val raw) ''priority'')\<rparr>))
         | _ \<Rightarrow> Inr None))"

definition getTaskStorageKey :: "string option \<Rightarrow> string option" where
  \<comment> \<open>the account id is \<open>null\<close> when \<open>None\<close>; the empty string is falsy too\<close>
  "getTaskStorageKey acctId =
     (case acctId of
        None \<Rightarrow> None
      | Some a \<Rightarrow> if a = [] then None else Some (TASK_KEY_PREFIX @ a))"

definition loadTasks ::
  "(string \<Rightarrow> number) \<Rightarrow> string \<Rightarrow> localStorage \<Rightarrow> string option \<Rightarrow> task list" where
  \<comment> \<open>The \<open>catch\<close> turns every exception into the empty list: that of \<open>JSON.parse\<close>, and
      that of \<open>normalizeTask\<close> on any one record.\<close>
  "loadTasks tv now ls acctId =
     (case getTaskStorageKey acctId of
        None \<Rightarrow> []
      | Some key \<Rightarrow>
          (case ls key of
             None \<Rightarrow> []
           | Some raw \<Rightarrow>
               if raw = Blank then []
               else (case JSON_parse raw of
                       Inl err \<Rightarrow> []
                     | Inr parsed \<Rightarrow>
                         (case parsed of
                            JArr items \<Rightarrow>
                              (case sequence (map (normalizeTask tv now) items) of
                                 Inl err \<Rightarrow> []
                               | Inr records \<Rightarrow> List.map_filter (\<lambda>r. r) records)
                          | _ \<Rightarrow> []))))"

definition priority_string :: "priority \<Rightarrow> string" where
  "priority_string p = (case p of Low \<Rightarrow> ''low'' | Med \<Rightarrow> ''med'' | High \<Rightarrow> ''high'')"

definition optional :: "string \<Rightarrow> string option \<Rightarrow> (string \<times> json) list" where
  \<comment> \<open>\<open>JSON.stringify\<close> leaves out a property whose value is \<open>undefined\<close>\<close>
  "optional k v = (case v of None \<Rightarrow> [] | Some s \<Rightarrow> [(k, JStr s)])"

definition task_json :: "task \<Rightarrow> json" where
  "task_json t =
     JObj ([(''id'', JStr (taskId t)), (''title'', JStr (title t)),
            (''completed'', JBool (completed t))]
           @ optional ''description'' (description t)
           @ [(''createdAt'', JStr (createdAt t)), (''updatedAt'', JStr (updatedAt t))]
           @ optional ''dueAt'' (dueAt t)
           @ optional ''priority'' (map_option priority_string (priority t)))"

section \<open>Application state\<close>

text \<open>
  The module's variables and \<open>localStorage\<close>. The DOM, \<open>render\<close> and the focus bookkeeping
  (\<open>pendingFocus\<close>) are outside the state engine and outside this record.
\<close>

record state =
  tasks :: "task list"
  currentAccount :: "account option"
  currentFilter :: string
  currentSort :: string
  agendaScope :: string
  agendaDate :: string
  storage :: localStorage

definition saveTasks :: "state \<Rightarrow> state" where
  "saveTasks st =
     (case getTaskStorageKey (map_option accountId (currentAccount st)) of
        None \<Rightarrow> st
      | Some key \<Rightarrow>
          st\<lparr>storage := (storage st)(key \<mapsto> JSON_stringify (JArr (map task_json (tasks st))))\<rparr>)"

text \<open>
  A patch is the list of \<open>Object.entries(nextFields)\<close>: each entry names a field of the
  task and carries a value of that field's type.
\<close>

datatype entry =
    E_id string
  | E_title string
  | E_completed bool
  | E_description "string option"
  | E_createdAt string
  | E_updatedAt string
  | E_dueAt "string option"
  | E_priority "priority option"

fun differs :: "task \<Rightarrow> entry \<Rightarrow> bool" where
  \<comment> \<open>\<open>updated[key] !== value\<close>\<close>
  "differs t (E_id v) = (taskId t \<noteq> v)"
| "differs t (E_title v) = (title t \<noteq> v)"
| "differs t (E_completed v) = (completed t \<noteq> v)"
| "differs t (E_description v) = (description t \<noteq> v)"
| "differs t (E_createdAt v) = (createdAt t \<noteq> v)"
| "differs t (E_updatedAt v) = (updatedAt t \<noteq> v)"
| "differs t (E_dueAt v) = (dueAt t \<noteq> v)"
| "differs t (E_priority v) = (priority t \<noteq> v)"

fun assign :: "task \<Rightarrow> entry \<Rightarrow> task" where
  \<comment> \<open>\<open>updated[key] = value\<close>\<close>
  "assign t (E_id v) = t\<lparr>taskId := v\<rparr>"
| "assign t (E_title v) = t\<lparr>title := v\<rparr>"
| "assign t (E_completed v) = t\<lparr>completed := v\<rparr>"
| "assign t (E_description v) = t\<lparr>description := v\<rparr>"
| "assign t (E_createdAt v) = t\<lparr>createdAt := v\<rparr>"
| "assign t (E_updatedAt v) = t\<lparr>updatedAt := v\<rparr>"
| "assign t (E_dueAt v) = t\<lparr>dueAt := v\<rparr>"
| "assign t (E_priority v) = t\<lparr>priority := v\<rparr>"

definition apply_entry :: "task \<times> bool \<Rightarrow> entry \<Rightarrow> task \<times> bool" where
  \<comment> \<open>one round of the \<open>forEach\<close>: the pair is \<open>updated\<close> and \<open>taskChanged\<close>\<close>
  "apply_entry acc en =
     (case acc of (updated, taskChanged) \<Rightarrow>
        if differs updated en then (assign updated en, True) else (updated, taskChanged))"

definition update_one :: "string \<Rightarrow> string \<Rightarrow> entry list \<Rightarrow> task \<Rightarrow> task \<times> bool" where
  \<comment> \<open>the callback of \<open>tasks.map\<close>, with whether it set \<open>changed\<close>\<close>
  "update_one now ident nextFields t =
     (if taskId t \<noteq> ident then (t, False)
      else
        (case foldl apply_entry (t, False) nextFields of
           (updated, taskChanged) \<Rightarrow>
             if taskChanged then (updated\<lparr>updatedAt := now\<rparr>, True) else (t, False)))"

definition updateTask :: "string \<Rightarrow> state \<Rightarrow> string \<Rightarrow> entry list \<Rightarrow> state" where
  \<comment> \<open>\<open>now\<close> is \<open>new Date().toISOString()\<close>\<close>
  "updateTask now st ident nextFields =
     (if currentAccount st = None then st
      else
        let results = map (update_one now ident nextFields) (tasks st);
            changed = list_ex snd results
        in if \<not> changed then st
           else saveTasks (st\<lparr>tasks := map fst results\<rparr>))"

section \<open>Session\<close>

definition loadSession :: "localStorage \<Rightarrow> account option \<times> localStorage" where
  \<comment> \<open>what \<open>loadSession\<close> returns, and the storage it leaves behind\<close>
  "loadSession ls =
     (case ls SESSION_KEY of
        None \<Rightarrow> (None, ls)
      | Some raw \<Rightarrow>
          if raw = Blank then (None, ls)
          else
            (case JSON_parse raw of
               Inl err \<Rightarrow> (None, ls(SESSION_KEY := None))
             | Inr parsed \<Rightarrow>
                 if \<not> truthy parsed \<or> \<not> is_object parsed then (None, ls)
                 else
                   (case string_of (member (Val parsed) ''id'') of
                      None \<Rightarrow> (None, ls)
                    | Some ident \<Rightarrow>
                        if ident = [] then (None, ls)
                        else
                          let users = loadUsers ls;
                              record = Get users ident in
                          if \<not> ToBoolean record then (None, ls(SESSION_KEY := None))
                          else
                            let displayName =
                                  or_else (member record ''displayName'')
                                    (or_else (member (Val parsed) ''displayName'')
                                       (Val (JStr ident)))
                            in (Some \<lparr>accountId = ident, displayName = displayName\<rparr>, ls))))"

section \<open>View engine\<close>

definition has_due :: "task \<Rightarrow> bool" where
  \<comment> \<open>\<open>task.dueAt\<close> as a condition: neither \<open>undefined\<close> nor the empty string\<close>
  "has_due t = (case dueAt t of None \<Rightarrow> False | Some s \<Rightarrow> s \<noteq> [])"

definition positive :: "number \<Rightarrow> bool" where
  "positive r = (case r of None \<Rightarrow> False | Some n \<Rightarrow> 0 < n)"

fun insert_sorted :: "('a \<Rightarrow> 'a \<Rightarrow> bool) \<Rightarrow> 'a \<Rightarrow> 'a list \<Rightarrow> 'a list" where
  "insert_sorted behind x [] = [x]"
| "insert_sorted behind x (y # ys) =
     (if behind x y then y # insert_sorted behind x ys else x # y # ys)"

definition Array_sort :: "('a \<Rightarrow> 'a \<Rightarrow> bool) \<Rightarrow> 'a list \<Rightarrow> 'a list" where
  \<comment> \<open>\<open>Array.prototype.sort\<close> with a comparator \<open>cmp\<close>, given as \<open>behind x y\<close> for
      \<open>cmp(x, y) > 0\<close>. The sort is stable and moves \<open>x\<close> behind \<open>y\<close> only then; \<open>NaN\<close>
      counts as 0. ECMAScript fixes its result for a consistent comparator, and an
      insertion sort computes that result.\<close>
  "Array_sort behind xs = foldr (insert_sorted behind) xs []"

definition compareCreated :: "(string \<Rightarrow> number) \<Rightarrow> task \<Rightarrow> task \<Rightarrow> number" where
  "compareCreated tv a b = minus_number (tv (createdAt b)) (tv (createdAt a))"

definition compareDue :: "(string \<Rightarrow> number) \<Rightarrow> task \<Rightarrow> task \<Rightarrow> number" where
  \<comment> \<open>the comparator of the \<open>dueAt\<close> branch; \<open>diff !== 0\<close> holds of \<open>NaN\<close>\<close>
  "compareDue tv a b =
     (if \<not> has_due a \<and> \<not> has_due b then compareCreated tv a b
      else if \<not> has_due a then Some 1
      else if \<not> has_due b then Some (- 1)
      else
        let diff = minus_number (tv (the (dueAt a))) (tv (the (dueAt b)))
        in if diff \<noteq> Some 0 then diff else compareCreated tv a b)"

definition priorityRank :: "priority option \<Rightarrow> int" where
  "priorityRank p = (case p of Some High \<Rightarrow> 0 | Some Med \<Rightarrow> 1 | Some Low \<Rightarrow> 2 | None \<Rightarrow> 3)"

definition comparePriority :: "(string \<Rightarrow> number) \<Rightarrow> task \<Rightarrow> task \<Rightarrow> number" where
  "comparePriority tv a b =
     (let rankA = priorityRank (priority a); rankB = priorityRank (priority b)
      in if rankA \<noteq> rankB then Some (rankA - rankB) else compareCreated tv a b)"

definition sortTasks :: "(string \<Rightarrow> number) \<Rightarrow> string \<Rightarrow> task list \<Rightarrow> task list" where
  \<comment> \<open>the second argument is \<open>currentSort\<close>\<close>
  "sortTasks tv sortKey listToSort =
     (if sortKey = ''dueAt''
      then Array_sort (\<lambda>a b. positive (compareDue tv a b)) listToSort
      else if sortKey = ''priority''
      then Array_sort (\<lambda>a b. positive (comparePriority tv a b)) listToSort
      else Array_sort (\<lambda>a b. positive (compareCreated tv a b)) listToSort)"

definition status_keeps :: "string \<Rightarrow> task \<Rightarrow> bool" where
  \<comment> \<open>the callback of the first \<open>tasks.filter\<close>\<close>
  "status_keeps currentFilter' t =
     (if currentFilter' = ''active'' then \<not> completed t
      else if currentFilter' = ''completed'' then completed t
      else True)"

definition getVisibleTasks ::
  "(string \<Rightarrow> number) \<Rightarrow> zone \<Rightarrow> int \<Rightarrow> state \<Rightarrow> error + task list" where
  \<comment> \<open>\<open>z\<close> is the host's time zone and \<open>now\<close> the time value of \<open>new Date()\<close>; the
      RangeError of \<open>getWeekRangeISO\<close> passes through\<close>
  "getVisibleTasks tv z now st =
     (let filtered = filter (status_keeps (currentFilter st)) (tasks st) in
      if agendaScope st = ''day''
      then Inr (sortTasks tv (currentSort st)
                 (filter (\<lambda>t. has_due t \<and> dueAt t = Some (agendaDate st)) filtered))
      else if agendaScope st = ''week''
      then (case getWeekRangeISO z now (agendaDate st) of
              Inl err \<Rightarrow> Inl err
            | Inr (startStr, endStr) \<Rightarrow>
                Inr (sortTasks tv (currentSort st)
                      (filter (\<lambda>t. has_due t \<and> startStr \<le> the (dueAt t) \<and> the (dueAt t) \<le> endStr)
                         filtered)))
      else Inr (sortTasks tv (currentSort st) filtered))"

section \<open>The order under the due-date sort key\<close>

text \<open>
  The specification's order, in its own words: of two tasks with a due date the earlier
  date comes first, a task without a due date never comes before one that has one, and of
  two tasks with the same due date, or both without, the one created later comes first.
  \<open>due_order tv a b\<close> says that \<open>a\<close> may stand before \<open>b\<close>. Dates are compared as the time
  values that the host reads from the stored strings; \<open>well_dated\<close> says that it can read
  them.
\<close>

definition created_time :: "(string \<Rightarrow> number) \<Rightarrow> task \<Rightarrow> int" where
  "created_time tv t = the (tv (createdAt t))"

definition due_time :: "(string \<Rightarrow> number) \<Rightarrow> task \<Rightarrow> int" where
  "due_time tv t = the (tv (the (dueAt t)))"

definition well_dated :: "(string \<Rightarrow> number) \<Rightarrow> task \<Rightarrow> bool" where
  "well_dated tv t = (tv (createdAt t) \<noteq> None \<and> (has_due t \<longrightarrow> tv (the (dueAt t)) \<noteq> None))"

definition due_order :: "(string \<Rightarrow> number) \<Rightarrow> task \<Rightarrow> task \<Rightarrow> bool" where
  "due_order tv a b =
     ((has_due a \<and> has_due b \<longrightarrow> due_time tv a \<le> due_time tv b)
      \<and> (has_due b \<longrightarrow> has_due a)
      \<and> ((has_due a \<and> has_due b \<and> due_time tv a = due_time tv b) \<or> (\<not> has_due a \<and> \<not> has_due b) \<longrightarrow>
           created_time tv b \<le> created_time tv a))"

section \<open>A sample state\<close>

text \<open>
  The scenario of the specification: the account \<open>carol\<close> with a task \<open>A\<close> due on
  2024-03-01 and a task \<open>B\<close> without a due date, the agenda on that day.
\<close>

definition task_A :: task where
  "task_A = \<lparr>taskId = ''a1'', title = ''A'', completed = False, description = None,
              createdAt = ''2024-02-01T09:00:00.000Z'', updatedAt = ''2024-02-01T09:00:00.000Z'',
              dueAt = Some ''2024-03-01'', priority = None\<rparr>"

definition task_B :: task where
  "task_B = \<lparr>taskId = ''b2'', title = ''B'', completed = False, description = None,
              createdAt = ''2024-02-02T09:00:00.000Z'', updatedAt = ''2024-02-02T09:00:00.000Z'',
              dueAt = None, priority = Some High\<rparr>"

definition carol :: account where
  "carol = \<lparr>accountId = ''carol'', displayName = Val (JStr ''Carol'')\<rparr>"

definition carol_state :: state where
  "carol_state = \<lparr>tasks = [task_A, task_B], currentAccount = Some carol,
                   currentFilter = ''all'', currentSort = ''created'',
                   agendaScope = ''day'', agendaDate = ''2024-03-01'',
                   storage = Map.empty\<rparr>"

section \<open>The single-list variant\<close>

text \<open>
  \<open>src/app.js\<close> is the same task list without accounts: one list under one storage key, no
  agenda window. Its \<open>sortTasks\<close> and \<open>updateTask\<close> differ from the ones above. The
  comparator gives a task without a due date the time \<open>Infinity\<close>, so its results range
  over the time values, \<open>NaN\<close> and the two infinities.
\<close>

datatype time = NaN | Finite int | Infinity | MinusInfinity

definition getTime :: "number \<Rightarrow> time" where
  "getTime r = (case r of None \<Rightarrow> NaN | Some n \<Rightarrow> Finite n)"

definition strict_equal :: "time \<Rightarrow> time \<Rightarrow> bool" where
  \<comment> \<open>\<open>===\<close> on numbers: \<open>NaN\<close> equals nothing\<close>
  "strict_equal x y = (x \<noteq> NaN \<and> x = y)"

fun subtract :: "time \<Rightarrow> time \<Rightarrow> time" where
  \<comment> \<open>\<open>x - y\<close>; on time values the sign of the result is that of the exact difference\<close>
  "subtract NaN y = NaN"
| "subtract x NaN = NaN"
| "subtract (Finite m) (Finite n) = Finite (m - n)"
| "subtract (Finite m) Infinity = MinusInfinity"
| "subtract (Finite m) MinusInfinity = Infinity"
| "subtract Infinity Infinity = NaN"
| "subtract Infinity y = Infinity"
| "subtract MinusInfinity MinusInfinity = NaN"
| "subtract MinusInfinity y = MinusInfinity"

definition positive_time :: "time \<Rightarrow> bool" where
  "positive_time r = (case r of Finite n \<Rightarrow> 0 < n | Infinity \<Rightarrow> True | _ \<Rightarrow> False)"

definition priorityOrder :: "priority option \<Rightarrow> int" where
  \<comment> \<open>\<open>priorityOrder[task.priority] || 0\<close>\<close>
  "priorityOrder p = (case p of Some High \<Rightarrow> 3 | Some Med \<Rightarrow> 2 | Some Low \<Rightarrow> 1 | None \<Rightarrow> 0)"

definition compare_app :: "(string \<Rightarrow> number) \<Rightarrow> string \<Rightarrow> task \<Rightarrow> task \<Rightarrow> time" where
  \<comment> \<open>the comparator that \<open>sortTasks\<close> of \<open>src/app.js\<close> hands to \<open>sort\<close>\<close>
  "compare_app tv sortKey a b =
     (let aCreated = getTime (tv (createdAt a));
          bCreated = getTime (tv (createdAt b))
      in if sortKey = ''dueAt''
         then
           let aTime = (if has_due a then getTime (tv (the (dueAt a))) else Infinity);
               bTime = (if has_due b then getTime (tv (the (dueAt b))) else Infinity)
           in if \<not> strict_equal aTime bTime then subtract aTime bTime
              else subtract bCreated aCreated
         else if sortKey = ''priority''
         then
           let aRank = priorityOrder (priority a);
               bRank = priorityOrder (priority b)
           in if aRank \<noteq> bRank then Finite (bRank - aRank)
              else subtract bCreated aCreated
         else subtract bCreated aCreated)"

definition sortTasks_app :: "(string \<Rightarrow> number) \<Rightarrow> task list \<Rightarrow> string \<Rightarrow> task list" where
  "sortTasks_app tv items sortKey =
     Array_sort (\<lambda>a b. positive_time (compare_app tv sortKey a b)) items"

definition STORAGE_KEY :: string where
  "STORAGE_KEY = ''todo.tasks.v1''"

definition task_json_app :: "task \<Rightarrow> json" where
  \<comment> \<open>the properties in the order in which \<open>normalizeTask\<close> of \<open>src/app.js\<close> writes them\<close>
  "task_json_app t =
     JObj ([(''id'', JStr (taskId t)), (''title'', JStr (title t)),
            (''completed'', JBool (completed t))]
           @ optional ''description'' (description t)
           @ optional ''dueAt'' (dueAt t)
           @ optional ''priority'' (map_option priority_string (priority t))
           @ [(''createdAt'', JStr (createdAt t)), (''updatedAt'', JStr (updatedAt t))])"

definition saveTasks_app :: "task list \<Rightarrow> localStorage \<Rightarrow> localStorage" where
  "saveTasks_app ts ls = ls(STORAGE_KEY \<mapsto> JSON_stringify (JArr (map task_json_app ts)))"

definition updateTask_app ::
  "string \<Rightarrow> task list \<times> localStorage \<Rightarrow> string \<Rightarrow> entry list \<Rightarrow> task list \<times> localStorage" where
  \<comment> \<open>the pair is the variable \<open>tasks\<close> and \<open>localStorage\<close>; \<open>now\<close> is
      \<open>new Date().toISOString()\<close>\<close>
  "updateTask_app now st ident nextFields =
     (case st of (ts, ls) \<Rightarrow>
        let results = map (update_one now ident nextFields) ts;
            changed = list_ex snd results
        in if \<not> changed then (ts, ls)
           else (map fst results, saveTasks_app (map fst results) ls))"

section \<open>Facts about strings\<close>


lemma dropWhile_rev_head:
  "\<not> P x \<Longrightarrow> \<exists>zs. rev (dropWhile P (rev (x # t))) = x # zs"
proof (cases "\<forall>y\<in>set t. P y")
  case True
  assume "\<not> P x"
  with True have "rev (dropWhile P (rev (x # t))) = [x]"
    by (simp add: dropWhile_append)
  then show ?thesis by simp
next
  case False
  then have "rev (dropWhile P (rev (x # t))) = x # rev (dropWhile P (rev t))"
    by (auto simp: dropWhile_append)
  then show ?thesis by simp
qed

lemma trim_idem: "trim (trim s) = trim s"
proof -
  define t where "t = dropWhile isWhiteSpace s"
  define r where "r = rev (dropWhile isWhiteSpace (rev t))"
  have r: "trim s = r" by (simp add: trim_def t_def r_def)
  have front: "dropWhile isWhiteSpace r = r"
  proof (cases t)
    case Nil
    then show ?thesis by (simp add: r_def)
  next
    case (Cons x t')
    have "\<not> isWhiteSpace x"
      using Cons by (simp add: t_def dropWhile_eq_Cons_conv)
    then obtain zs where "r = x # zs"
      using dropWhile_rev_head [of isWhiteSpace x t'] Cons by (auto simp: r_def)
    with \<open>\<not> isWhiteSpace x\<close> show ?thesis by simp
  qed
  have rear: "dropWhile isWhiteSpace (rev r) = rev r"
    by (simp add: r_def dropWhile_idem)
  have "trim r = rev (dropWhile isWhiteSpace (rev (dropWhile isWhiteSpace r)))"
    by (simp only: trim_def)
  also have "\<dots> = r"
    by (simp only: front rear rev_rev_ident)
  finally show ?thesis
    by (simp only: r)
qed

lemma length_toLowerCase: "length (toLowerCase s) = length s"
  by (simp add: toLowerCase_def)

lemma normalizeUsername_trim: "normalizeUsername (trim u) = normalizeUsername u"
  by (simp add: normalizeUsername_def trim_idem)

lemma length_normalizeUsername: "length (normalizeUsername u) = length (trim u)"
  by (simp add: normalizeUsername_def toLowerCase_def)

section \<open>Facts about the credential store\<close>

lemma registerUser_cases:
  "registerUser e now ls u p =
     (if length (trim u) < 3
      then (Inl (Error ''Username must be at least 3 characters long.''), ls)
      else if length p < 6
      then (Inl (Error ''Password must be at least 6 characters long.''), ls)
      else if normalizeUsername (trim u) = []
      then (Inl (Error ''Username is required.''), ls)
      else if ToBoolean (Get (loadUsers ls) (normalizeUsername (trim u)))
      then (Inl (Error ''That username is already taken.''), ls)
      else (Inr \<lparr>accountId = normalizeUsername (trim u), displayName = Val (JStr (trim u))\<rparr>,
            saveUsers ls (set_prop (normalizeUsername (trim u))
              (JObj [(''passwordHash'', JStr (hashPassword e p)),
                     (''displayName'', JStr (trim u)),
                     (''createdAt'', JStr now)]) (loadUsers ls))))"
  by (simp add: registerUser_def Let_def)


lemma map_of_set_prop: "map_of (set_prop k v ps) k' = (if k' = k then Some v else map_of ps k')"
  by (induction ps) auto

lemma loadUsers_saveUsers: "loadUsers (saveUsers ls users) = users"
  by (simp add: loadUsers_def saveUsers_def JSON_stringify_def JSON_parse_def)

lemma registerUser_success:
  assumes "registerUser e now ls u p = (Inr acct, ls')"
  shows "3 \<le> length (trim u)" and "6 \<le> length p"
    and "\<not> ToBoolean (Get (loadUsers ls) (normalizeUsername u))"
    and "acct = \<lparr>accountId = normalizeUsername u, displayName = Val (JStr (trim u))\<rparr>"
    and "ls' = saveUsers ls (set_prop (normalizeUsername u)
               (JObj [(''passwordHash'', JStr (hashPassword e p)),
                      (''displayName'', JStr (trim u)),
                      (''createdAt'', JStr now)]) (loadUsers ls))"
  using assms
  by (auto simp: registerUser_cases normalizeUsername_trim split: if_splits)

lemma Get_has_account: "has_account ls k \<Longrightarrow> ToBoolean (Get (loadUsers ls) k)"
  by (auto simp: has_account_def Get_def split: option.splits)

lemma Get_no_account:
  "\<not> has_account ls k \<Longrightarrow> k \<notin> set Object_prototype_keys \<Longrightarrow> \<not> ToBoolean (Get (loadUsers ls) k)"
  by (auto simp: has_account_def Get_def split: option.splits)

lemma authenticateUser_cases:
  "authenticateUser e ls u p =
     (if normalizeUsername u = [] then Inl (Error ''Enter your username to sign in.'')
      else if \<not> ToBoolean (Get (loadUsers ls) (normalizeUsername u))
      then Inl (Error ''Account not found.'')
      else if member (Get (loadUsers ls) (normalizeUsername u)) ''passwordHash''
                \<noteq> Val (JStr (hashPassword e p))
      then Inl (Error ''Incorrect password.'')
      else Inr \<lparr>accountId = normalizeUsername u,
                displayName = or_else (member (Get (loadUsers ls) (normalizeUsername u)) ''displayName'')
                                (Val (JStr (trim u)))\<rparr>)"
  by (simp add: authenticateUser_def Let_def normalizeUsername_trim)

lemma Get_registered:
  assumes "registerUser e now ls u p = (Inr acct, ls')"
  shows "Get (loadUsers ls') (normalizeUsername u)
         = Val (JObj [(''passwordHash'', JStr (hashPassword e p)),
                      (''displayName'', JStr (trim u)),
                      (''createdAt'', JStr now)])"
  by (simp add: registerUser_success(5) [OF assms] loadUsers_saveUsers Get_def map_of_set_prop)

lemma member_record:
  "Get [(''passwordHash'', JStr h), (''displayName'', JStr d), (''createdAt'', JStr c)]
     ''passwordHash'' = Val (JStr h)"
  "Get [(''passwordHash'', JStr h), (''displayName'', JStr d), (''createdAt'', JStr c)]
     ''displayName'' = Val (JStr d)"
  by (simp_all add: Get_def)

lemma loadSession_other_keys: "k \<noteq> SESSION_KEY \<Longrightarrow> snd (loadSession ls) k = ls k"
  by (auto simp: loadSession_def Let_def split: option.splits sum.splits if_splits)

lemma hexDigit_lower: "hexDigit n \<in> set hexDigits"
proof -
  have "n mod 16 < length hexDigits" by (simp add: hexDigits_def)
  then show ?thesis
    unfolding hexDigit_def by (rule nth_mem)
qed

lemma lower_hex_hex2: "lower_hex (concat (map hex2 bs))"
  by (induction bs) (simp_all add: lower_hex_def hex2_def hexDigit_lower)

lemma length_hex2: "length (concat (map hex2 bs)) = 2 * length bs"
  by (induction bs) (simp_all add: hex2_def)

section \<open>Facts about the task store\<close>

lemma apply_entry_pair:
  "apply_entry (u, c) en = (if differs u en then (assign u en, True) else (u, c))"
  by (simp add: apply_entry_def)

lemma foldl_apply_entry_same:
  "\<forall>en\<in>set nextFields. \<not> differs t en \<Longrightarrow> foldl apply_entry (t, b) nextFields = (t, b)"
  by (induction nextFields) (simp_all add: apply_entry_pair)

lemma foldl_apply_entry_mono:
  "snd (foldl apply_entry (t, True) nextFields) = True"
  by (induction nextFields arbitrary: t) (simp_all add: apply_entry_pair)

lemma foldl_apply_entry_changed:
  "\<exists>en\<in>set nextFields. differs t en \<Longrightarrow> snd (foldl apply_entry (t, False) nextFields) = True"
proof (induction nextFields)
  case Nil
  then show ?case by simp
next
  case (Cons en rest)
  show ?case
  proof (cases "differs t en")
    case True
    then show ?thesis
      by (simp add: apply_entry_pair foldl_apply_entry_mono)
  next
    case False
    with Cons show ?thesis
      by (simp add: apply_entry_pair)
  qed
qed

lemma update_one_same:
  "taskId t \<noteq> ident \<or> (\<forall>en\<in>set nextFields. \<not> differs t en) \<Longrightarrow>
   update_one now ident nextFields t = (t, False)"
  by (auto simp: update_one_def foldl_apply_entry_same)

lemma update_one_changed:
  assumes "taskId t = ident" and "\<exists>en\<in>set nextFields. differs t en"
  shows "snd (update_one now ident nextFields t) = True"
    and "updatedAt (fst (update_one now ident nextFields t)) = now"
  using assms foldl_apply_entry_changed [of nextFields t]
  by (auto simp: update_one_def split: prod.splits)

lemma saveTasks_signed_in:
  "currentAccount st = Some a \<Longrightarrow> accountId a \<noteq> [] \<Longrightarrow>
   saveTasks st = st\<lparr>storage := (storage st)(TASK_KEY_PREFIX @ accountId a \<mapsto>
                        JSON_stringify (JArr (map task_json (tasks st))))\<rparr>"
  by (simp add: saveTasks_def getTaskStorageKey_def)

section \<open>Facts about the view engine\<close>

lemma mset_insert_sorted: "mset (insert_sorted behind x ys) = add_mset x (mset ys)"
  by (induction ys) simp_all

lemma mset_Array_sort: "mset (Array_sort behind xs) = mset xs"
  by (induction xs) (simp_all add: Array_sort_def mset_insert_sorted)

lemma mset_sortTasks: "mset (sortTasks tv k xs) = mset xs"
  by (simp add: sortTasks_def mset_Array_sort)

lemma set_sortTasks: "set (sortTasks tv k xs) = set xs"
  using arg_cong [OF mset_sortTasks [of tv k xs], of set_mset] by simp


lemma sortTasks_single: "sortTasks tv k [x] = [x]"
  by (simp add: sortTasks_def Array_sort_def)

lemma day_week: "''week'' \<noteq> ''day''"
  by simp

lemma set_insert_sorted: "set (insert_sorted behind x ys) = insert x (set ys)"
  by (induction ys) auto

lemma set_Array_sort: "set (Array_sort behind xs) = set xs"
  by (induction xs) (simp_all add: Array_sort_def set_insert_sorted)

lemma sorted_wrt_insert_sorted:
  assumes trans: "\<And>a b c. a \<in> S \<Longrightarrow> b \<in> S \<Longrightarrow> c \<in> S \<Longrightarrow> R a b \<Longrightarrow> R b c \<Longrightarrow> R a c"
    and moved: "\<And>a b. a \<in> S \<Longrightarrow> b \<in> S \<Longrightarrow> behind a b \<Longrightarrow> R b a"
    and kept: "\<And>a b. a \<in> S \<Longrightarrow> b \<in> S \<Longrightarrow> \<not> behind a b \<Longrightarrow> R a b"
  shows "x \<in> S \<Longrightarrow> set ys \<subseteq> S \<Longrightarrow> sorted_wrt R ys \<Longrightarrow> sorted_wrt R (insert_sorted behind x ys)"
proof (induction ys)
  case Nil
  then show ?case by simp
next
  case (Cons y ys)
  show ?case
  proof (cases "behind x y")
    case True
    have "R y x"
      using moved [of x y] True Cons.prems by simp
    moreover have "sorted_wrt R (insert_sorted behind x ys)"
      using Cons by simp
    ultimately show ?thesis
      using True Cons.prems by (simp add: set_insert_sorted)
  next
    case False
    have xy: "R x y"
      using kept [of x y] False Cons.prems by simp
    have "R x z" if "z \<in> set ys" for z
      using trans [of x y z] xy that Cons.prems by auto
    then show ?thesis
      using False xy Cons.prems by simp
  qed
qed

lemma sorted_wrt_Array_sort:
  assumes trans: "\<And>a b c. a \<in> S \<Longrightarrow> b \<in> S \<Longrightarrow> c \<in> S \<Longrightarrow> R a b \<Longrightarrow> R b c \<Longrightarrow> R a c"
    and moved: "\<And>a b. a \<in> S \<Longrightarrow> b \<in> S \<Longrightarrow> behind a b \<Longrightarrow> R b a"
    and kept: "\<And>a b. a \<in> S \<Longrightarrow> b \<in> S \<Longrightarrow> \<not> behind a b \<Longrightarrow> R a b"
  shows "set xs \<subseteq> S \<Longrightarrow> sorted_wrt R (Array_sort behind xs)"
proof (induction xs)
  case Nil
  then show ?case by (simp add: Array_sort_def)
next
  case (Cons x xs)
  have "sorted_wrt R (insert_sorted behind x (Array_sort behind xs))"
  proof (rule sorted_wrt_insert_sorted [where S = S])
    show "x \<in> S" using Cons.prems by simp
    show "set (Array_sort behind xs) \<subseteq> S" using Cons.prems by (simp add: set_Array_sort)
    show "sorted_wrt R (Array_sort behind xs)" using Cons by simp
  qed (use trans moved kept in blast)+
  then show ?case by (simp add: Array_sort_def)
qed

lemma compareCreated_dated:
  "well_dated tv a \<Longrightarrow> well_dated tv b \<Longrightarrow>
   compareCreated tv a b = Some (created_time tv b - created_time tv a)"
  by (auto simp: compareCreated_def minus_number_def well_dated_def created_time_def)

lemma compareDue_dated:
  assumes "well_dated tv a" and "well_dated tv b"
  shows "compareDue tv a b =
     (if \<not> has_due a \<and> \<not> has_due b then Some (created_time tv b - created_time tv a)
      else if \<not> has_due a then Some 1
      else if \<not> has_due b then Some (- 1)
      else if due_time tv a \<noteq> due_time tv b then Some (due_time tv a - due_time tv b)
      else Some (created_time tv b - created_time tv a))"
  using assms
  by (auto simp: compareDue_def compareCreated_dated minus_number_def well_dated_def due_time_def
        Let_def)

lemma due_order_trans:
  "due_order tv a b \<Longrightarrow> due_order tv b c \<Longrightarrow> due_order tv a c"
  unfolding due_order_def by (intro conjI impI) auto

lemma due_order_behind:
  "well_dated tv a \<Longrightarrow> well_dated tv b \<Longrightarrow> positive (compareDue tv a b) \<Longrightarrow> due_order tv b a"
  by (auto simp: compareDue_dated positive_def due_order_def split: if_splits)

lemma due_order_before:
  "well_dated tv a \<Longrightarrow> well_dated tv b \<Longrightarrow> \<not> positive (compareDue tv a b) \<Longrightarrow> due_order tv a b"
  by (auto simp: compareDue_dated positive_def due_order_def split: if_splits)

lemma sorted_wrt_sortTasks_dueAt:
  assumes "\<forall>t\<in>set xs. well_dated tv t"
  shows "sorted_wrt (due_order tv) (sortTasks tv ''dueAt'' xs)"
proof -
  have "sorted_wrt (due_order tv) (Array_sort (\<lambda>a b. positive (compareDue tv a b)) xs)"
  proof (rule sorted_wrt_Array_sort [where S = "{t. well_dated tv t}"])
    show "set xs \<subseteq> {t. well_dated tv t}" using assms by auto
  qed (auto intro: due_order_trans due_order_behind due_order_before)
  then show ?thesis by (simp add: sortTasks_def)
qed

lemma compare_app_dated:
  assumes "well_dated tv a" and "well_dated tv b"
  shows "positive_time (compare_app tv ''dueAt'' a b) = positive (compareDue tv a b)"
proof -
  obtain m n where created: "tv (createdAt a) = Some m" "tv (createdAt b) = Some n"
    using assms by (auto simp: well_dated_def)
  show ?thesis
  proof (cases "has_due a")
    case True
    then obtain x where a: "tv (the (dueAt a)) = Some x"
      using assms by (auto simp: well_dated_def)
    show ?thesis
    proof (cases "has_due b")
      case True
      then obtain y where b: "tv (the (dueAt b)) = Some y"
        using assms by (auto simp: well_dated_def)
      from \<open>has_due a\<close> True show ?thesis
        by (simp add: compare_app_def compareDue_def compareCreated_def minus_number_def
              getTime_def strict_equal_def positive_time_def positive_def created a b)
    next
      case False
      with \<open>has_due a\<close> show ?thesis
        by (simp add: compare_app_def compareDue_def getTime_def strict_equal_def
              positive_time_def positive_def created a)
    qed
  next
    case False
    show ?thesis
    proof (cases "has_due b")
      case True
      then obtain y where b: "tv (the (dueAt b)) = Some y"
        using assms by (auto simp: well_dated_def)
      from \<open>\<not> has_due a\<close> True show ?thesis
        by (simp add: compare_app_def compareDue_def getTime_def strict_equal_def
              positive_time_def positive_def created b)
    next
      case False
      with \<open>\<not> has_due a\<close> show ?thesis
        by (simp add: compare_app_def compareDue_def compareCreated_def minus_number_def
              getTime_def strict_equal_def positive_time_def positive_def created)
    qed
  qed
qed

lemma sorted_wrt_sortTasks_app_dueAt:
  assumes "\<forall>t\<in>set xs. well_dated tv t"
  shows "sorted_wrt (due_order tv) (sortTasks_app tv xs ''dueAt'')"
  unfolding sortTasks_app_def
proof (rule sorted_wrt_Array_sort [where S = "{t. well_dated tv t}"])
  show "set xs \<subseteq> {t. well_dated tv t}" using assms by auto
qed (auto simp: compare_app_dated intro: due_order_trans due_order_behind due_order_before)

lemma mset_sortTasks_app: "mset (sortTasks_app tv xs sortKey) = mset xs"
  by (simp add: sortTasks_app_def mset_Array_sort)

lemma getVisibleTasks_subset:
  assumes "getVisibleTasks tv z now st = Inr vis"
  shows "\<exists>xs. set xs \<subseteq> set (tasks st) \<and> vis = sortTasks tv (currentSort st) xs"
proof -
  let ?filtered = "filter (status_keeps (currentFilter st)) (tasks st)"
  consider (day) "agendaScope st = ''day''"
    | (week) "agendaScope st \<noteq> ''day''" "agendaScope st = ''week''"
    | (other) "agendaScope st \<noteq> ''day''" "agendaScope st \<noteq> ''week''"
    by blast
  then show ?thesis
  proof cases
    case day
    let ?xs = "filter (\<lambda>t. has_due t \<and> dueAt t = Some (agendaDate st)) ?filtered"
    have "vis = sortTasks tv (currentSort st) ?xs"
      using assms day by (simp add: getVisibleTasks_def)
    moreover have "set ?xs \<subseteq> set (tasks st)" by auto
    ultimately show ?thesis by blast
  next
    case week
    then obtain startStr endStr where
      "vis = sortTasks tv (currentSort st)
               (filter (\<lambda>t. has_due t \<and> startStr \<le> the (dueAt t) \<and> the (dueAt t) \<le> endStr)
                  ?filtered)"
      using assms by (auto simp: getVisibleTasks_def split: sum.splits)
    moreover have "set (filter (\<lambda>t. has_due t \<and> startStr \<le> the (dueAt t) \<and> the (dueAt t) \<le> endStr)
                  ?filtered) \<subseteq> set (tasks st)" by auto
    ultimately show ?thesis by blast
  next
    case other
    have "vis = sortTasks tv (currentSort st) ?filtered"
      using assms other by (simp add: getVisibleTasks_def)
    moreover have "set ?filtered \<subseteq> set (tasks st)" by auto
    ultimately show ?thesis by blast
  qed
qed

section \<open>Facts about dates\<close>

lemma civil_parts:
  fixes n :: int
  defines "z \<equiv> n + 719468"
  defines "era \<equiv> z div 146097"
  defines "doe \<equiv> z mod 146097"
  defines "c \<equiv> min 3 (doe div 36524)"
  defines "doc \<equiv> doe - c * 36524"
  defines "q \<equiv> doc div 1461"
  defines "doq \<equiv> doc mod 1461"
  defines "yq \<equiv> min 3 (doq div 365)"
  defines "doy \<equiv> doq - yq * 365"
  defines "mp \<equiv> (5 * doy + 2) div 153"
  shows "0 \<le> c \<and> c \<le> 3" and "0 \<le> q \<and> q \<le> 24" and "0 \<le> yq \<and> yq \<le> 3"
    and "0 \<le> doy \<and> doy \<le> 365" and "0 \<le> mp \<and> mp \<le> 11"
    and "doe = 36524 * c + 1461 * q + 365 * yq + doy"
    and "n = era * 146097 + doe - 719468"
proof -
  have doe: "0 \<le> doe" "doe < 146097"
    by (simp_all add: doe_def)
  show c: "0 \<le> c \<and> c \<le> 3"
    using doe by (simp add: c_def)
  have doc: "0 \<le> doc" "doc \<le> 36524"
    using doe unfolding doc_def c_def by arith+
  show q: "0 \<le> q \<and> q \<le> 24"
    using doc unfolding q_def by arith
  have doq: "0 \<le> doq" "doq < 1461"
    by (simp_all add: doq_def)
  show yq: "0 \<le> yq \<and> yq \<le> 3"
    using doq by (simp add: yq_def)
  show doy: "0 \<le> doy \<and> doy \<le> 365"
    using doq unfolding doy_def yq_def by arith
  show "0 \<le> mp \<and> mp \<le> 11"
    using doy unfolding mp_def by arith
  have "doc = 1461 * q + doq"
    by (simp add: q_def doq_def)
  then show "doe = 36524 * c + 1461 * q + 365 * yq + doy"
    by (simp add: doc_def doy_def)
  show "n = era * 146097 + doe - 719468"
    by (simp add: era_def doe_def z_def)
qed


lemma civil_inverse:
  assumes "civil n = (y, m, d)"
  shows "1 \<le> m \<and> m \<le> 12" and "1 \<le> d \<and> d \<le> 31" and "days_from_civil y m k = n - d + k"
proof -
  define z where "z = n + 719468"
  define era where "era = z div 146097"
  define doe where "doe = z mod 146097"
  define c where "c = min 3 (doe div 36524)"
  define doc where "doc = doe - c * 36524"
  define q where "q = doc div 1461"
  define doq where "doq = doc mod 1461"
  define yq where "yq = min 3 (doq div 365)"
  define doy where "doy = doq - yq * 365"
  define mp where "mp = (5 * doy + 2) div 153"
  define yoe where "yoe = c * 100 + q * 4 + yq"
  note defs = z_def era_def doe_def c_def doc_def q_def doq_def yq_def doy_def mp_def
  have c: "0 \<le> c \<and> c \<le> 3" and q: "0 \<le> q \<and> q \<le> 24" and yq: "0 \<le> yq \<and> yq \<le> 3"
    and doy: "0 \<le> doy \<and> doy \<le> 365" and mp: "0 \<le> mp \<and> mp \<le> 11"
    and doe: "doe = 36524 * c + 1461 * q + 365 * yq + doy"
    and n: "n = era * 146097 + doe - 719468"
    unfolding defs by (rule civil_parts)+
  have "civil n = (era * 400 + c * 100 + q * 4 + yq
                      + (if (if mp < 10 then mp + 3 else mp - 9) \<le> 2 then 1 else 0),
                    if mp < 10 then mp + 3 else mp - 9,
                    doy - (153 * mp + 2) div 5 + 1)"
    unfolding civil_def Let_def defs by (rule refl)
  with assms have d: "d = doy - (153 * mp + 2) div 5 + 1"
    and m: "m = (if mp < 10 then mp + 3 else mp - 9)"
    and y: "y = era * 400 + yoe + (if m \<le> 2 then 1 else 0)"
    by (auto simp: yoe_def)
  show m12: "1 \<le> m \<and> m \<le> 12"
    using mp m by auto
  have mp_doy: "153 * mp \<le> 5 * doy + 2" "5 * doy + 2 < 153 * mp + 153"
    unfolding mp_def by arith+
  show "1 \<le> d \<and> d \<le> 31"
    using mp mp_doy unfolding d by arith
  have yoe: "0 \<le> yoe \<and> yoe \<le> 399"
    using c q yq by (simp add: yoe_def)
  have y': "(if m \<le> 2 then y - 1 else y) = era * 400 + yoe"
    using y by simp
  have era': "(era * 400 + yoe) div 400 = era" and yoe': "(era * 400 + yoe) mod 400 = yoe"
    using yoe by simp_all
  have mp': "(if m > 2 then m - 3 else m + 9) = mp"
    using mp m by auto
  have quarters: "yoe div 4 = 25 * c + q" and centuries: "yoe div 100 = c"
    using c q yq unfolding yoe_def by arith+
  have "days_from_civil y m k
          = era * 146097 + (yoe * 365 + yoe div 4 - yoe div 100 + ((153 * mp + 2) div 5 + k - 1))
            - 719468"
    unfolding days_from_civil_def Let_def y' mp' era' yoe' by simp
  also have "\<dots> = n - d + k"
    by (simp only: quarters centuries) (simp add: n doe d yoe_def)
  finally show "days_from_civil y m k = n - d + k" .
qed

lemma length_dec: "length (dec k n) = k"
  by (induction k arbitrary: n) simp_all

lemma of_char_digit:
  "0 \<le> r \<Longrightarrow> r < 10 \<Longrightarrow> (of_char (char_of (48 + r :: int)) :: int) = 48 + r"
  by (simp add: of_char_of)

lemma isDigit_digit: "isDigit (char_of (48 + n mod 10 :: int))"
  by (simp add: isDigit_def of_char_digit)

lemma digits_dec: "list_all isDigit (dec k n)"
  by (induction k arbitrary: n) (simp_all add: isDigit_digit)

lemma dash_not_digit: "\<not> isDigit CHR ''-''"
  by (simp add: isDigit_def)

lemma dash_notin_dec: "CHR ''-'' \<notin> set (dec k n)"
  using digits_dec [of k n] dash_not_digit by (auto simp: list_all_iff)

lemma value_dec: "decimal_value (dec k n) = n mod 10 ^ k"
  unfolding decimal_value_def
proof (induction k arbitrary: n)
  case 0
  then show ?case by simp
next
  case (Suc k)
  have "n mod (10 * 10 ^ k) = 10 * (n div 10 mod 10 ^ k) + n mod 10"
    by (rule zmod_zmult2_eq) simp
  then show ?case
    by (simp add: Suc of_char_digit)
qed

lemma digit_not_space: "isDigit c \<Longrightarrow> \<not> isWhiteSpace c"
proof -
  assume "isDigit c"
  moreover have "(of_char c :: int) = int (of_char c)"
    by (rule of_nat_of_char [symmetric])
  ultimately have "48 \<le> (of_char c :: nat) \<and> (of_char c :: nat) \<le> 57"
    by (simp add: isDigit_def)
  then show ?thesis
    by (auto simp: isWhiteSpace_def)
qed

lemma dropWhile_none: "\<forall>x\<in>set xs. \<not> P x \<Longrightarrow> dropWhile P xs = xs"
  by (cases xs) simp_all

lemma trim_digits: "list_all isDigit s \<Longrightarrow> trim s = s"
  by (simp add: trim_def dropWhile_none digit_not_space list_all_iff)

lemma not_prefixed_digits:
  "list_all isDigit s \<Longrightarrow> \<not> isDigit lower \<Longrightarrow> \<not> isDigit upper \<Longrightarrow> \<not> prefixed s lower upper"
  by (auto simp: prefixed_def split: list.splits)

lemma round_double_int: "\<bar>n\<bar> \<le> 2 ^ 53 \<Longrightarrow> round_double n 1 = Double n 0"
  by (simp add: round_double_def)

lemma unsigned_literal_digits:
  assumes "list_all isDigit s" and "s \<noteq> []" and "decimal_value s \<le> 2 ^ 53"
    and "0 \<le> decimal_value s"
  shows "unsigned_literal s = Double (decimal_value s) 0"
proof -
  have "isDigit (hd s)"
    using assms(1,2) by (cases s) simp_all
  then have "hd s \<noteq> CHR ''I''"
    by (auto simp: isDigit_def)
  then have other: "s \<noteq> ''Infinity''"
    by auto
  have whole: "takeWhile isDigit s = s" and rest: "dropWhile isDigit s = []"
    using assms(1) by (simp_all add: list_all_iff)
  have "\<bar>decimal_value s\<bar> \<le> 2 ^ 53"
    using assms(3,4) by simp
  then show ?thesis
    using other assms(2)
    by (simp add: unsigned_literal_def whole rest exponent_part_def power_of_ten_def
          round_double_int)
qed

lemma ToNumber_dec:
  assumes "0 < k" and "0 \<le> n" and "n < 10 ^ k" and "n \<le> 2 ^ 53"
  shows "ToNumber (dec k n) = Double n 0"
proof -
  let ?s = "dec k n"
  have digits: "list_all isDigit ?s"
    by (rule digits_dec)
  have ne: "?s \<noteq> []"
    using assms(1) length_dec [of k n] by auto
  have v: "decimal_value ?s = n"
    using assms(2,3) by (simp add: value_dec)
  have "isDigit (hd ?s)"
    using digits ne by (cases ?s) simp_all
  then have sign: "hd ?s \<noteq> CHR ''+''" "hd ?s \<noteq> CHR ''-''"
    by (auto simp: isDigit_def)
  have prefixes: "\<not> prefixed ?s CHR ''b'' CHR ''B''" "\<not> prefixed ?s CHR ''o'' CHR ''O''"
    "\<not> prefixed ?s CHR ''x'' CHR ''X''"
    by (rule not_prefixed_digits [OF digits]; simp add: isDigit_def)+
  have "unsigned_literal ?s = Double n 0"
    using unsigned_literal_digits [OF digits ne] assms(2,4) by (simp add: v)
  then show ?thesis
    by (simp add: ToNumber_def trim_digits [OF digits] ne sign prefixes)
qed

lemma minus_double_int:
  "\<bar>a - b\<bar> \<le> 2 ^ 53 \<Longrightarrow> minus_double (Double a 0) (Double b 0) = Double (a - b) 0"
  by (simp add: minus_double_def scaled_def round_double_int)

lemma split_on_none: "c \<notin> set w \<Longrightarrow> split_on c w = [w]"
  by (induction w) auto

lemma split_on_first: "c \<notin> set w \<Longrightarrow> split_on c (w @ c # rest) = w # split_on c rest"
  by (induction w) auto

lemma split_date:
  "split_on CHR ''-'' (dec 4 y @ CHR ''-'' # dec 2 m @ CHR ''-'' # dec 2 d)
     = [dec 4 y, dec 2 m, dec 2 d]"
  using split_on_first [of "CHR ''-''" "dec 4 y" "dec 2 m @ CHR ''-'' # dec 2 d"]
    split_on_first [of "CHR ''-''" "dec 2 m" "dec 2 d"]
    split_on_none [of "CHR ''-''" "dec 2 d"]
  by (simp add: dash_notin_dec)

lemma Day_days: "Day (n * msPerDay) = n" and TimeWithinDay_days: "TimeWithinDay (n * msPerDay) = 0"
  by (simp_all add: Day_def TimeWithinDay_def msPerDay_def)

lemma Day_time: "Day (n * msPerDay + TimeWithinDay t) = n"
  by (simp add: Day_def TimeWithinDay_def msPerDay_def)

lemma MakeDay_civil:
  assumes "civil n = (y, m, d)"
  shows "MakeDay y (m - 1) k = n - d + k"
proof -
  have m: "1 \<le> m \<and> m \<le> 12"
    by (rule civil_inverse(1) [OF assms])
  then have "(m - 1) div 12 = 0" "(m - 1) mod 12 + 1 = m"
    by simp_all
  then show ?thesis
    by (simp add: MakeDay_def civil_inverse(3) [OF assms])
qed

lemma day_bound:
  assumes "four_digit_year n"
  shows "\<bar>n\<bar> \<le> 4000000"
proof -
  obtain y m d where civ: "civil n = (y, m, d)"
    by (cases "civil n") auto
  have y: "0 \<le> y \<and> y \<le> 9999"
    using assms civ by (simp add: four_digit_year_def year_of_def)
  have m: "1 \<le> m \<and> m \<le> 12" and d: "1 \<le> d \<and> d \<le> 31"
    by (rule civil_inverse [OF civ])+
  define y' where "y' = (if m \<le> 2 then y - 1 else y)"
  define era where "era = y' div 400"
  define yoe where "yoe = y' mod 400"
  define mp where "mp = (if m > 2 then m - 3 else m + 9)"
  define doy where "doy = (153 * mp + 2) div 5 + d - 1"
  have "days_from_civil y m d
          = era * 146097 + (yoe * 365 + yoe div 4 - yoe div 100 + doy) - 719468"
    unfolding days_from_civil_def Let_def y'_def era_def yoe_def mp_def doy_def by (rule refl)
  then have n: "n = era * 146097 + (yoe * 365 + yoe div 4 - yoe div 100 + doy) - 719468"
    using civil_inverse(3) [OF civ, of d] by simp
  have y'b: "- 1 \<le> y' \<and> y' \<le> 9999"
    using y by (simp add: y'_def)
  have yoe: "0 \<le> yoe \<and> yoe \<le> 399"
    by (simp add: yoe_def)
  have "y' = era * 400 + yoe"
    by (simp add: era_def yoe_def)
  then have era: "- 1 \<le> era \<and> era \<le> 24"
    using y'b yoe by linarith
  have mp: "0 \<le> mp \<and> mp \<le> 11"
    using m by (simp add: mp_def)
  define w where "w = (153 * mp + 2) div 5"
  have "153 * mp + 2 = 5 * w + (153 * mp + 2) mod 5"
    "0 \<le> (153 * mp + 2) mod 5" "(153 * mp + 2) mod 5 < 5"
    by (simp_all add: w_def)
  then have w: "0 \<le> w \<and> w \<le> 337"
    using mp by linarith
  have doy: "0 \<le> doy \<and> doy \<le> 367"
    using w d by (simp add: doy_def w_def)
  have "yoe = 4 * (yoe div 4) + yoe mod 4" "0 \<le> yoe mod 4" "yoe mod 4 < 4"
    by simp_all
  then have quarter: "0 \<le> yoe div 4 \<and> yoe div 4 \<le> 99"
    using yoe by linarith
  have "yoe = 100 * (yoe div 100) + yoe mod 100" "0 \<le> yoe mod 100" "yoe mod 100 < 100"
    by simp_all
  then have century: "0 \<le> yoe div 100 \<and> yoe div 100 \<le> 3"
    using yoe by linarith
  have "- 146097 \<le> era * 146097 \<and> era * 146097 \<le> 3506328"
    and "0 \<le> yoe * 365 \<and> yoe * 365 \<le> 145635"
    using era yoe by simp_all
  then have "- 4000000 \<le> n \<and> n \<le> 4000000"
    using doy quarter century unfolding n by linarith
  then show ?thesis
    by (simp add: abs_le_iff)
qed

lemma parts_isoDate:
  assumes "civil n = (y, m, d)" and "four_digit_year n"
  shows "map ToNumber (split_on CHR ''-'' (isoDate n)) = [Double y 0, Double m 0, Double d 0]"
proof -
  have y: "0 \<le> y \<and> y \<le> 9999"
    using assms by (simp add: four_digit_year_def year_of_def)
  have m: "1 \<le> m \<and> m \<le> 12" and d: "1 \<le> d \<and> d \<le> 31"
    by (rule civil_inverse [OF assms(1)])+
  have "ToNumber (dec 4 y) = Double y 0" "ToNumber (dec 2 m) = Double m 0"
    "ToNumber (dec 2 d) = Double d 0"
    using ToNumber_dec [of 4 y] ToNumber_dec [of 2 m] ToNumber_dec [of 2 d] y m d
    by simp_all
  then show ?thesis
    by (simp add: isoDate_def assms(1) split_date)
qed

lemma isoDate_not_empty: "isoDate n \<noteq> []"
  by (simp add: isoDate_def split: prod.splits)

text \<open>
  In a zone with one offset \<open>c\<close>, local midnight of the day \<open>n\<close> is the time value
  \<open>n * msPerDay - c\<close>.
\<close>

lemma LocalTime_fixed: "LocalTime (fixed_zone c) t = t + c" and UTC_fixed: "UTC (fixed_zone c) t = t - c"
  by (simp_all add: LocalTime_def UTC_def fixed_zone_def)

lemma TimeClip_midnight:
  "\<bar>k\<bar> \<le> 90000000 \<Longrightarrow> \<bar>c\<bar> \<le> msPerDay \<Longrightarrow> TimeClip (k * msPerDay - c) = Some (k * msPerDay - c)"
  by (simp add: TimeClip_def msPerDay_def abs_le_iff)

lemma parse_isoDate:
  assumes "four_digit_year n" and "\<bar>c\<bar> \<le> msPerDay"
  shows "parseISOToLocalDate (fixed_zone c) now (isoDate n) = Some (n * msPerDay - c)"
proof -
  obtain y m d where civ: "civil n = (y, m, d)"
    by (cases "civil n") auto
  have m: "1 \<le> m \<and> m \<le> 12" and d: "1 \<le> d \<and> d \<le> 31"
    by (rule civil_inverse [OF civ])+
  have parts: "map ToNumber (split_on CHR ''-'' (isoDate n)) = [Double y 0, Double m 0, Double d 0]"
    by (rule parts_isoDate [OF civ assms(1)])
  have month: "minus_double (or_one (Double m 0)) (Double 1 0) = Double (m - 1) 0"
    using m by (simp add: or_one_def falsy_def minus_double_int)
  have date: "or_one (Double d 0) = Double d 0"
    using d by (simp add: or_one_def falsy_def)
  have day: "MakeDay y (m - 1) d = n"
    using MakeDay_civil [OF civ, of d] by simp
  have bound: "\<bar>n\<bar> \<le> 4000000"
    by (rule day_bound [OF assms(1)])
  define w where "w = TimeWithinDay (now + c)"
  have within: "0 \<le> w \<and> w < msPerDay"
    by (simp add: w_def TimeWithinDay_def msPerDay_def)
  have clip: "TimeClip (n * msPerDay + w - c) = Some (n * msPerDay + w - c)"
    using bound within assms(2) by (simp add: TimeClip_def msPerDay_def abs_le_iff)
  have full: "setFullYear (fixed_zone c) (Some now) (Double y 0) (Double (m - 1) 0) (Double d 0)
              = Some (n * msPerDay + w - c)"
    by (simp add: setFullYear_def ToIntegerOrInfinity_def LocalTime_fixed UTC_fixed day
          MakeDate_def w_def [symmetric] clip)
  have "Day (n * msPerDay + w) = n"
    unfolding w_def by (rule Day_time)
  then have midnight: "setHours0 (fixed_zone c) (Some (n * msPerDay + w - c)) = Some (n * msPerDay - c)"
    using bound assms(2)
    by (simp add: setHours0_def LocalTime_fixed UTC_fixed MakeDate_def MakeTime_def
          TimeClip_midnight)
  show ?thesis
    by (simp add: parseISOToLocalDate_def isoDate_not_empty parts part_def month date full
          midnight)
qed

lemma getDay_days: "getDay (fixed_zone c) (Some (n * msPerDay - c)) = Some ((n + 4) mod 7)"
  by (simp add: getDay_def LocalTime_fixed WeekDay_def Day_days)

lemma setDate_days:
  assumes "\<bar>n + k\<bar> \<le> 90000000" and "\<bar>c\<bar> \<le> msPerDay"
  shows "setDate (fixed_zone c) (Some (n * msPerDay - c))
           (plus_number (getDate (fixed_zone c) (Some (n * msPerDay - c))) (Some k))
         = Some ((n + k) * msPerDay - c)"
proof -
  obtain y m d where civ: "civil n = (y, m, d)"
    by (cases "civil n") auto
  have "MakeDay y (m - 1) (d + k) = n + k"
    using MakeDay_civil [OF civ, of "d + k"] by simp
  then show ?thesis
    using TimeClip_midnight [OF assms]
    by (simp add: setDate_def getDate_def plus_number_def LocalTime_fixed UTC_fixed
          DateFromTime_def YearFromTime_def MonthFromTime_def Day_days TimeWithinDay_days civ
          MakeDate_def)
qed

lemma midnight_fields:
  "HourFromTime (n * msPerDay) = 0" "MinFromTime (n * msPerDay) = 0"
  "SecFromTime (n * msPerDay) = 0" "msFromTime (n * msPerDay) = 0"
proof -
  have hours: "n * msPerDay = n * 24 * 3600000" and minutes: "n * msPerDay = n * 24 * 60 * 60000"
    and seconds: "n * msPerDay = n * 1440 * 60 * 1000" and ms: "n * msPerDay = n * 86400 * 1000"
    by (simp_all add: msPerDay_def)
  show "HourFromTime (n * msPerDay) = 0"
    unfolding HourFromTime_def by (simp only: hours) simp
  show "MinFromTime (n * msPerDay) = 0"
    unfolding MinFromTime_def by (simp only: minutes) simp
  show "SecFromTime (n * msPerDay) = 0"
    unfolding SecFromTime_def by (simp only: seconds) simp
  show "msFromTime (n * msPerDay) = 0"
    unfolding msFromTime_def by (simp only: ms) simp
qed

lemma toISODateLocal_days:
  assumes "four_digit_year k" and "\<bar>c\<bar> \<le> 1440"
  shows "toISODateLocal (fixed_zone (c * msPerMinute)) (Some (k * msPerDay - c * msPerMinute))
         = Inr (isoDate k)"
proof -
  let ?z = "fixed_zone (c * msPerMinute)"
  let ?d = "Some (k * msPerDay - c * msPerMinute)"
  obtain y m d where civ: "civil k = (y, m, d)"
    by (cases "civil k") auto
  have y: "0 \<le> y \<and> y \<le> 9999"
    using assms civ by (simp add: four_digit_year_def year_of_def)
  have bound: "\<bar>k\<bar> \<le> 4000000"
    by (rule day_bound [OF assms(1)])
  have "msPerMinute dvd - (c * msPerMinute)" "- (c * msPerMinute) div msPerMinute = - c"
    by (simp_all add: msPerMinute_def)
  then have offset: "getTimezoneOffset ?z ?d = Double (- c) 0"
    using assms(2) by (simp add: getTimezoneOffset_def LocalTime_fixed round_double_def)
  have minutes: "getMinutes ?z ?d = Double 0 0"
    by (simp add: getMinutes_def LocalTime_fixed midnight_fields)
  have shift: "minus_double (getMinutes ?z ?d) (getTimezoneOffset ?z ?d) = Double c 0"
    using assms(2) by (simp add: offset minutes minus_double_int)
  have "TimeClip (k * msPerDay) = Some (k * msPerDay)"
    using bound by (simp add: TimeClip_def msPerDay_def abs_le_iff)
  then have copy: "setMinutes ?z ?d (Double c 0) = Some (k * msPerDay)"
    by (simp add: setMinutes_def ToIntegerOrInfinity_def LocalTime_fixed UTC_fixed Day_days
          midnight_fields MakeTime_def MakeDate_def msPerMinute_def)
  have "take 10 (toISOString (k * msPerDay)) = isoDate k"
    using y
    by (simp add: toISOString_def YearFromTime_def MonthFromTime_def DateFromTime_def Day_days
          TimeWithinDay_days civ isoDate_def length_dec)
  then show ?thesis
    by (simp add: toISODateLocal_def shift copy)
qed

lemma week_start_delta:
  "n + (if (n + 4) mod 7 = 0 then - 6 else 1 - (n + 4) mod 7) = week_start n"
proof -
  define r where "r = (n + 3) mod 7"
  have r: "0 \<le> r" "r < 7"
    by (simp_all add: r_def)
  have "(n + 3 + 1) mod 7 = (r + 1) mod 7"
    unfolding r_def by (rule mod_add_left_eq [symmetric])
  moreover have "n + 3 + 1 = n + 4"
    by simp
  ultimately have "(n + 4) mod 7 = (r + 1) mod 7"
    by simp
  also have "\<dots> = (if r = 6 then 0 else r + 1)"
    using r by simp
  finally have next_day: "(n + 4) mod 7 = (if r = 6 then 0 else r + 1)" .
  have "week_start n = n - r"
    by (simp add: week_start_def r_def)
  then show ?thesis
    using r by (simp add: next_day)
qed

lemma week_start_facts:
  "week_start n \<le> n" "n \<le> week_start n + 6"
  "(week_start n + 4) mod 7 = 1" "(week_start n + 6 + 4) mod 7 = 0"
proof -
  define r where "r = (n + 3) mod 7"
  have r: "0 \<le> r" "r < 7"
    by (simp_all add: r_def)
  have n: "n + 3 = 7 * ((n + 3) div 7) + r"
    by (simp add: r_def)
  have start: "week_start n = n - r"
    by (simp add: week_start_def r_def)
  show "week_start n \<le> n" "n \<le> week_start n + 6"
    using r by (simp_all add: start)
  have monday: "week_start n + 4 = 7 * ((n + 3) div 7) + 1"
    and sunday: "week_start n + 6 + 4 = 7 * ((n + 3) div 7) + 7"
    using n start by linarith+
  show "(week_start n + 4) mod 7 = 1"
    by (simp only: monday) simp
  show "(week_start n + 6 + 4) mod 7 = 0"
    by (simp only: sunday) simp
qed

lemma getWeekRangeISO_of_day:
  assumes "four_digit_year n" and "four_digit_year (week_start n)"
    and "four_digit_year (week_start n + 6)" and "\<bar>c\<bar> \<le> 1440"
  shows "getWeekRangeISO (fixed_zone (c * msPerMinute)) now (isoDate n)
         = Inr (isoDate (week_start n), isoDate (week_start n + 6))"
proof -
  let ?z = "fixed_zone (c * msPerMinute)"
  let ?d = "Some (n * msPerDay - c * msPerMinute)"
  let ?monday = "Some (week_start n * msPerDay - c * msPerMinute)"
  let ?delta = "if (n + 4) mod 7 = 0 then - 6 else 1 - (n + 4) mod 7"
  have offset: "\<bar>c * msPerMinute\<bar> \<le> msPerDay"
    using assms(4) by (simp add: msPerMinute_def msPerDay_def abs_le_iff)
  have parsed: "parseISOToLocalDate ?z now (isoDate n) = ?d"
    by (rule parse_isoDate [OF assms(1) offset])
  have delta: "map_option (\<lambda>k. if k = 0 then - 6 else 1 - k) (getDay ?z ?d) = Some ?delta"
    by (simp add: getDay_days)
  have small: "\<bar>n + ?delta\<bar> \<le> 90000000" "\<bar>week_start n + 6\<bar> \<le> 90000000"
    using day_bound [OF assms(2)] day_bound [OF assms(3)] week_start_delta [of n] by simp_all
  have monday: "setDate ?z ?d (plus_number (getDate ?z ?d) (Some ?delta)) = ?monday"
    using setDate_days [OF small(1) offset] week_start_delta [of n] by simp
  have sunday: "setDate ?z ?monday (plus_number (getDate ?z ?monday) (Some 6))
                = Some ((week_start n + 6) * msPerDay - c * msPerMinute)"
    by (rule setDate_days [OF small(2) offset])
  show ?thesis
    unfolding getWeekRangeISO_def Let_def parsed delta monday sunday
    by (simp add: toISODateLocal_days [OF assms(2,4)] toISODateLocal_days [OF assms(3,4)])
qed
section \<open>Registration leaves the table alone when it fails\<close>

text \<open>
  C10. Whenever \<open>registerUser\<close> throws, for whichever of its four reasons, the storage it
  leaves behind is the storage it found: the users table is neither created nor changed.
  The throw is one of the four messages of the source.
\<close>

theorem registerUser_failure_keeps_storage:
  assumes "fst (registerUser e now ls u p) = Inl err"
  shows "snd (registerUser e now ls u p) = ls
       \<and> loadUsers (snd (registerUser e now ls u p)) = loadUsers ls
       \<and> err \<in> set [Error ''Username must be at least 3 characters long.'',
                    Error ''Password must be at least 6 characters long.'',
                    Error ''Username is required.'',
                    Error ''That username is already taken.'']"
  using assms by (auto simp: registerUser_cases split: if_splits)

theorem registerUser_failure_keeps_storage_witness:
  "fst (registerUser \<lparr>subtle_digest = None, has_btoa = True\<rparr> ''2024-01-01T00:00:00.000Z''
          (Map.empty(USERS_KEY \<mapsto> Encodes (JObj [(''bob'', JObj [(''passwordHash'', JStr ''x'')])])))
          ''Bob'' ''secret1'')
     = Inl (Error ''That username is already taken.'')
   \<and> snd (registerUser \<lparr>subtle_digest = None, has_btoa = True\<rparr> ''2024-01-01T00:00:00.000Z''
          (Map.empty(USERS_KEY \<mapsto> Encodes (JObj [(''bob'', JObj [(''passwordHash'', JStr ''x'')])])))
          ''Bob'' ''secret1'')
     = Map.empty(USERS_KEY \<mapsto> Encodes (JObj [(''bob'', JObj [(''passwordHash'', JStr ''x'')])]))"
proof -
  have thrown:
    "fst (registerUser \<lparr>subtle_digest = None, has_btoa = True\<rparr> ''2024-01-01T00:00:00.000Z''
            (Map.empty(USERS_KEY \<mapsto> Encodes (JObj [(''bob'', JObj [(''passwordHash'', JStr ''x'')])])))
            ''Bob'' ''secret1'')
       = Inl (Error ''That username is already taken.'')"
    by code_simp
  from registerUser_failure_keeps_storage [OF thrown] thrown show ?thesis
    by simp
qed

section \<open>Registration\<close>

text \<open>
  C6 (amended). \<open>registerUser\<close> throws a validation error, leaving the storage as it was,
  whenever the trimmed username has fewer than 3 characters or the password fewer than 6.
  When both lengths are met and the normalized (trimmed, lower-cased) username has a record
  in the users table, it throws the conflict error. When it succeeds, it returns the
  account \<open>{id, displayName}\<close> (normalized name, trimmed name as entered; no hash), the
  users table is the old one with the new record under the normalized name, and every
  later registration of a name with the same normalized form, in whatever casing and with
  a password of 6 or more characters, throws the conflict error.
  The claim as written gives the conflict error to every taken name; the source checks
  the two lengths first, so a taken name with a short password gets the validation error.
\<close>

theorem registerUser_outcomes:
  "(length (trim u) < 3 \<or> length p < 6 \<longrightarrow>
      (\<exists>err. registerUser e now ls u p = (Inl err, ls) \<and> ValidationError err))
   \<and> (3 \<le> length (trim u) \<and> 6 \<le> length p \<and> has_account ls (normalizeUsername u) \<longrightarrow>
      (\<exists>err. registerUser e now ls u p = (Inl err, ls) \<and> ConflictError err))
   \<and> (\<forall>acct ls'. registerUser e now ls u p = (Inr acct, ls') \<longrightarrow>
        acct = \<lparr>accountId = normalizeUsername u, displayName = Val (JStr (trim u))\<rparr>
        \<and> loadUsers ls' = set_prop (normalizeUsername u)
              (JObj [(''passwordHash'', JStr (hashPassword e p)),
                     (''displayName'', JStr (trim u)),
                     (''createdAt'', JStr now)]) (loadUsers ls)
        \<and> has_account ls' (normalizeUsername u)
        \<and> (\<forall>e' now' u' p'. normalizeUsername u' = normalizeUsername u \<and> 6 \<le> length p' \<longrightarrow>
              (\<exists>err. registerUser e' now' ls' u' p' = (Inl err, ls') \<and> ConflictError err)))"
proof (intro conjI allI impI)
  assume "length (trim u) < 3 \<or> length p < 6"
  then show "\<exists>err. registerUser e now ls u p = (Inl err, ls) \<and> ValidationError err"
    by (auto simp: registerUser_cases ValidationError_def)
next
  assume a: "3 \<le> length (trim u) \<and> 6 \<le> length p \<and> has_account ls (normalizeUsername u)"
  then have "normalizeUsername u \<noteq> []"
    using length_normalizeUsername [of u] by auto
  with a show "\<exists>err. registerUser e now ls u p = (Inl err, ls) \<and> ConflictError err"
    by (simp add: registerUser_cases ConflictError_def normalizeUsername_trim Get_has_account)
next
  fix acct ls'
  assume reg: "registerUser e now ls u p = (Inr acct, ls')"
  show "acct = \<lparr>accountId = normalizeUsername u, displayName = Val (JStr (trim u))\<rparr>"
    by (rule registerUser_success(4) [OF reg])
  show users': "loadUsers ls' = set_prop (normalizeUsername u)
              (JObj [(''passwordHash'', JStr (hashPassword e p)),
                     (''displayName'', JStr (trim u)),
                     (''createdAt'', JStr now)]) (loadUsers ls)"
    by (simp add: registerUser_success(5) [OF reg] loadUsers_saveUsers)
  show acc: "has_account ls' (normalizeUsername u)"
    by (simp add: has_account_def users' map_of_set_prop)
  fix e' :: env and now' u' p' :: string
  assume same: "normalizeUsername u' = normalizeUsername u \<and> 6 \<le> length p'"
  have "3 \<le> length (trim u')"
    using registerUser_success(1) [OF reg] same
      length_normalizeUsername [of u] length_normalizeUsername [of u'] by simp
  moreover have "normalizeUsername u' \<noteq> []"
    using calculation length_normalizeUsername [of u'] by auto
  ultimately show "\<exists>err. registerUser e' now' ls' u' p' = (Inl err, ls') \<and> ConflictError err"
    using same acc
    by (simp add: registerUser_cases ConflictError_def normalizeUsername_trim Get_has_account)
qed

theorem registerUser_outcomes_witness:
  "length (trim ''ab'') < 3
   \<and> (\<exists>err. registerUser \<lparr>subtle_digest = None, has_btoa = True\<rparr> ''2024-01-01T00:00:00.000Z''
               Map.empty ''ab'' ''secret1'' = (Inl err, Map.empty) \<and> ValidationError err)
   \<and> has_account (Map.empty(USERS_KEY \<mapsto> Encodes (JObj [(''bob'', JObj [])])))
         (normalizeUsername ''Bob'')
   \<and> (\<exists>err. registerUser \<lparr>subtle_digest = None, has_btoa = True\<rparr> ''2024-01-01T00:00:00.000Z''
               (Map.empty(USERS_KEY \<mapsto> Encodes (JObj [(''bob'', JObj [])]))) ''Bob'' ''secret1''
             = (Inl err, Map.empty(USERS_KEY \<mapsto> Encodes (JObj [(''bob'', JObj [])])))
           \<and> ConflictError err)
   \<and> fst (registerUser \<lparr>subtle_digest = None, has_btoa = True\<rparr> ''2024-01-01T00:00:00.000Z''
             Map.empty ''Bob'' ''secret1'')
       = Inr \<lparr>accountId = ''bob'', displayName = Val (JStr ''Bob'')\<rparr>
   \<and> (\<exists>err. fst (registerUser \<lparr>subtle_digest = None, has_btoa = False\<rparr> ''2024-01-02T00:00:00.000Z''
               (snd (registerUser \<lparr>subtle_digest = None, has_btoa = True\<rparr>
                       ''2024-01-01T00:00:00.000Z'' Map.empty ''Bob'' ''secret1''))
               '' bob '' ''secret2'') = Inl err
           \<and> ConflictError err)"
proof -
  let ?e = "\<lparr>subtle_digest = None, has_btoa = True\<rparr>"
  let ?now = "''2024-01-01T00:00:00.000Z''"
  let ?lsB = "Map.empty(USERS_KEY \<mapsto> Encodes (JObj [(''bob'', JObj [])]))"
  let ?ls' = "snd (registerUser ?e ?now Map.empty ''Bob'' ''secret1'')"
  have short: "length (trim ''ab'') < 3 \<or> length ''secret1'' < 6"
    by code_simp
  have taken: "3 \<le> length (trim ''Bob'') \<and> 6 \<le> length ''secret1''
               \<and> has_account ?lsB (normalizeUsername ''Bob'')"
    by code_simp
  have made: "fst (registerUser ?e ?now Map.empty ''Bob'' ''secret1'')
              = Inr \<lparr>accountId = ''bob'', displayName = Val (JStr ''Bob'')\<rparr>"
    by code_simp
  then have reg: "registerUser ?e ?now Map.empty ''Bob'' ''secret1''
              = (Inr \<lparr>accountId = ''bob'', displayName = Val (JStr ''Bob'')\<rparr>, ?ls')"
    by (simp add: prod_eq_iff)
  have again: "normalizeUsername '' bob '' = normalizeUsername ''Bob'' \<and> 6 \<le> length ''secret2''"
    by code_simp
  note thm1 = registerUser_outcomes [of "''ab''" "''secret1''" ?e ?now Map.empty]
  note thm2 = registerUser_outcomes [of "''Bob''" "''secret1''" ?e ?now ?lsB]
  note thm3 = registerUser_outcomes [of "''Bob''" "''secret1''" ?e ?now Map.empty]
  have c1: "\<exists>err. registerUser ?e ?now Map.empty ''ab'' ''secret1'' = (Inl err, Map.empty)
              \<and> ValidationError err"
    using thm1 short by blast
  have c2: "\<exists>err. registerUser ?e ?now ?lsB ''Bob'' ''secret1'' = (Inl err, ?lsB) \<and> ConflictError err"
    using thm2 taken by blast
  have c3: "\<exists>err. registerUser \<lparr>subtle_digest = None, has_btoa = False\<rparr> ''2024-01-02T00:00:00.000Z''
               ?ls' '' bob '' ''secret2'' = (Inl err, ?ls') \<and> ConflictError err"
    using thm3 reg again by blast
  have len: "length (trim ''ab'') < 3" by code_simp
  from c3 have c3': "\<exists>err. fst (registerUser \<lparr>subtle_digest = None, has_btoa = False\<rparr>
               ''2024-01-02T00:00:00.000Z'' ?ls' '' bob '' ''secret2'') = Inl err \<and> ConflictError err"
    by auto
  from len c1 taken c2 made c3' show ?thesis
    by blast
qed

theorem registerUser_conflict_counterexample:
  "has_account (snd (registerUser \<lparr>subtle_digest = None, has_btoa = True\<rparr>
                       ''2024-01-01T00:00:00.000Z'' Map.empty ''Bob'' ''secret1''))
               (normalizeUsername ''bob'')
   \<and> fst (registerUser \<lparr>subtle_digest = None, has_btoa = True\<rparr> ''2024-01-02T00:00:00.000Z''
            (snd (registerUser \<lparr>subtle_digest = None, has_btoa = True\<rparr>
                    ''2024-01-01T00:00:00.000Z'' Map.empty ''Bob'' ''secret1''))
            ''bob'' ''x'')
       = Inl (Error ''Password must be at least 6 characters long.'')
   \<and> \<not> ConflictError (Error ''Password must be at least 6 characters long.'')"
  by code_simp

section \<open>Authentication\<close>

text \<open>
  C5 (amended). After \<open>registerUser\<close> has created an account, \<open>authenticateUser\<close> with
  any username of the same normalized form (trimmed, lower-cased) and the same password
  returns the account \<open>{id, displayName}\<close>: the id is the normalized name, the display
  name is the trimmed name as entered at registration, and the object has no hash.
  With a password whose hash differs from the stored hash it throws
  \<open>Incorrect password.\<close> A username whose normalized form is not empty, is not the name
  of a member that objects inherit from \<open>Object.prototype\<close>, and has no record in the
  users table gets \<open>Account not found.\<close> A username whose normalized form is empty gets
  the validation error \<open>Enter your username to sign in.\<close>, where the claim as written
  promises the not-found error.
\<close>

theorem authenticateUser_outcomes:
  "(registerUser e now ls u p = (Inr acct, ls') \<longrightarrow>
      (\<forall>u'. normalizeUsername u' = normalizeUsername u \<longrightarrow>
         authenticateUser e ls' u' p
           = Inr \<lparr>accountId = normalizeUsername u, displayName = Val (JStr (trim u))\<rparr>)
      \<and> (\<forall>u' p'. normalizeUsername u' = normalizeUsername u
                  \<and> hashPassword e p' \<noteq> hashPassword e p \<longrightarrow>
            (\<exists>err. authenticateUser e ls' u' p' = Inl err \<and> InvalidCredentialError err)))
   \<and> (normalizeUsername v \<noteq> [] \<and> normalizeUsername v \<notin> set Object_prototype_keys
        \<and> \<not> has_account ls0 (normalizeUsername v) \<longrightarrow>
        (\<exists>err. authenticateUser e ls0 v q = Inl err \<and> NotFoundError err))
   \<and> (normalizeUsername v = [] \<longrightarrow>
        (\<exists>err. authenticateUser e ls0 v q = Inl err \<and> ValidationError err))"
proof (intro conjI allI impI)
  fix u' :: string
  assume reg: "registerUser e now ls u p = (Inr acct, ls')"
    and same: "normalizeUsername u' = normalizeUsername u"
  have ne: "normalizeUsername u \<noteq> []" "trim u \<noteq> []"
    using registerUser_success(1) [OF reg] length_normalizeUsername [of u] by auto
  show "authenticateUser e ls' u' p
          = Inr \<lparr>accountId = normalizeUsername u, displayName = Val (JStr (trim u))\<rparr>"
    using ne
    by (simp add: authenticateUser_cases same Get_registered [OF reg] member_record or_else_def)
next
  fix u' p' :: string
  assume reg: "registerUser e now ls u p = (Inr acct, ls')"
    and wrong: "normalizeUsername u' = normalizeUsername u \<and> hashPassword e p' \<noteq> hashPassword e p"
  have ne: "normalizeUsername u \<noteq> []"
    using registerUser_success(1) [OF reg] length_normalizeUsername [of u] by auto
  show "\<exists>err. authenticateUser e ls' u' p' = Inl err \<and> InvalidCredentialError err"
    using ne wrong
    by (auto simp: authenticateUser_cases Get_registered [OF reg] member_record
          InvalidCredentialError_def)
next
  assume "normalizeUsername v \<noteq> [] \<and> normalizeUsername v \<notin> set Object_prototype_keys
          \<and> \<not> has_account ls0 (normalizeUsername v)"
  then show "\<exists>err. authenticateUser e ls0 v q = Inl err \<and> NotFoundError err"
    by (simp add: authenticateUser_cases Get_no_account NotFoundError_def)
next
  assume "normalizeUsername v = []"
  then show "\<exists>err. authenticateUser e ls0 v q = Inl err \<and> ValidationError err"
    by (simp add: authenticateUser_cases ValidationError_def)
qed

theorem authenticateUser_outcomes_witness:
  "fst (registerUser \<lparr>subtle_digest = None, has_btoa = True\<rparr> ''2024-01-01T00:00:00.000Z''
          Map.empty ''Alice'' ''secret1'')
     = Inr \<lparr>accountId = ''alice'', displayName = Val (JStr ''Alice'')\<rparr>
   \<and> authenticateUser \<lparr>subtle_digest = None, has_btoa = True\<rparr>
         (snd (registerUser \<lparr>subtle_digest = None, has_btoa = True\<rparr>
                 ''2024-01-01T00:00:00.000Z'' Map.empty ''Alice'' ''secret1''))
         ''alice'' ''secret1''
       = Inr \<lparr>accountId = ''alice'', displayName = Val (JStr ''Alice'')\<rparr>
   \<and> (\<exists>err. authenticateUser \<lparr>subtle_digest = None, has_btoa = True\<rparr>
         (snd (registerUser \<lparr>subtle_digest = None, has_btoa = True\<rparr>
                 ''2024-01-01T00:00:00.000Z'' Map.empty ''Alice'' ''secret1''))
         ''alice'' ''wrongpw'' = Inl err \<and> InvalidCredentialError err)
   \<and> (\<exists>err. authenticateUser \<lparr>subtle_digest = None, has_btoa = True\<rparr>
         (snd (registerUser \<lparr>subtle_digest = None, has_btoa = True\<rparr>
                 ''2024-01-01T00:00:00.000Z'' Map.empty ''Alice'' ''secret1''))
         ''Carol'' ''secret1'' = Inl err \<and> NotFoundError err)
   \<and> (\<exists>err. authenticateUser \<lparr>subtle_digest = None, has_btoa = True\<rparr>
         (snd (registerUser \<lparr>subtle_digest = None, has_btoa = True\<rparr>
                 ''2024-01-01T00:00:00.000Z'' Map.empty ''Alice'' ''secret1''))
         ''  '' ''secret1'' = Inl err \<and> ValidationError err)"
proof -
  let ?e = "\<lparr>subtle_digest = None, has_btoa = True\<rparr>"
  let ?now = "''2024-01-01T00:00:00.000Z''"
  let ?acct = "\<lparr>accountId = ''alice'', displayName = Val (JStr ''Alice'')\<rparr>"
  let ?ls' = "snd (registerUser ?e ?now Map.empty ''Alice'' ''secret1'')"
  have made: "fst (registerUser ?e ?now Map.empty ''Alice'' ''secret1'') = Inr ?acct"
    by code_simp
  then have reg: "registerUser ?e ?now Map.empty ''Alice'' ''secret1'' = (Inr ?acct, ?ls')"
    by (simp add: prod_eq_iff)
  have names: "normalizeUsername ''alice'' = normalizeUsername ''Alice''"
    "normalizeUsername ''Alice'' = ''alice''" "trim ''Alice'' = ''Alice''"
    by code_simp+
  have wrong: "hashPassword ?e ''wrongpw'' \<noteq> hashPassword ?e ''secret1''"
    by code_simp
  have absent: "normalizeUsername ''Carol'' \<noteq> []
                \<and> normalizeUsername ''Carol'' \<notin> set Object_prototype_keys
                \<and> \<not> has_account ?ls' (normalizeUsername ''Carol'')"
    by code_simp
  have blank: "normalizeUsername ''  '' = []"
    by code_simp
  note thm1 = authenticateUser_outcomes
    [of ?e ?now Map.empty "''Alice''" "''secret1''" ?acct ?ls' "''Carol''" ?ls' "''secret1''"]
  note thm2 = authenticateUser_outcomes
    [of ?e ?now Map.empty "''Alice''" "''secret1''" ?acct ?ls' "''  ''" ?ls' "''secret1''"]
  have a: "authenticateUser ?e ?ls' ''alice'' ''secret1'' = Inr ?acct"
    using thm1 reg names by simp
  have b: "\<exists>err. authenticateUser ?e ?ls' ''alice'' ''wrongpw'' = Inl err
             \<and> InvalidCredentialError err"
    using thm1 reg names(1) wrong by blast
  have c: "\<exists>err. authenticateUser ?e ?ls' ''Carol'' ''secret1'' = Inl err \<and> NotFoundError err"
    using thm1 absent by blast
  have d: "\<exists>err. authenticateUser ?e ?ls' ''  '' ''secret1'' = Inl err \<and> ValidationError err"
    using thm2 blank by blast
  from made a b c d show ?thesis
    by blast
qed

theorem authenticateUser_empty_name_counterexample:
  "\<not> has_account Map.empty (normalizeUsername ''  '')
   \<and> authenticateUser \<lparr>subtle_digest = None, has_btoa = True\<rparr> Map.empty ''  '' ''secret1''
       = Inl (Error ''Enter your username to sign in.'')
   \<and> \<not> NotFoundError (Error ''Enter your username to sign in.'')"
  by code_simp

text \<open>
  A normalized name that is a member of \<open>Object.prototype\<close>, such as \<open>constructor\<close>: the
  lookup \<open>users[normalized]\<close> finds the inherited member, so the name counts as present
  although the table has no record for it, and the hash comparison fails.
\<close>

lemma authenticateUser_inherited_name:
  "\<not> has_account Map.empty (normalizeUsername ''constructor'')
   \<and> authenticateUser \<lparr>subtle_digest = None, has_btoa = True\<rparr> Map.empty ''constructor'' ''secret1''
       = Inl (Error ''Incorrect password.'')"
  by code_simp

section \<open>Session restore\<close>

text \<open>
  \<open>loadSession\<close> returns no account and leaves the storage alone when there is no
  session pointer. When the pointer names an id under which the users table has no record,
  and the id is not the name of a member that every object inherits, \<open>loadSession\<close>
  removes the pointer from the storage and returns no account. It writes nothing but the
  pointer: every other key, and so the users table, is as it was.
\<close>

lemma loadSession_no_pointer: "ls SESSION_KEY = None \<Longrightarrow> loadSession ls = (None, ls)"
  by (simp add: loadSession_def)

lemma loadSession_stale_pointer:
  assumes "ls SESSION_KEY = Some (Encodes (JObj ps))" and "map_of ps ''id'' = Some (JStr ident)"
    and "ident \<noteq> []" and "map_of (loadUsers ls) ident = None"
    and "ident \<notin> set Object_prototype_keys"
  shows "loadSession ls = (None, ls(SESSION_KEY := None))"
proof -
  have "Get (loadUsers ls) ident = Undefined"
    using assms(4,5) by (simp add: Get_def)
  then show ?thesis
    using assms(1,2,3)
    by (simp add: loadSession_def JSON_parse_def is_object_def string_of_def Get_def [of ps])
qed

lemma loadSession_keeps_users: "loadUsers (snd (loadSession ls)) = loadUsers ls"
proof -
  have "snd (loadSession ls) USERS_KEY = ls USERS_KEY"
    by (rule loadSession_other_keys) (simp add: USERS_KEY_def SESSION_KEY_def)
  then show ?thesis
    by (simp add: loadUsers_def)
qed

text \<open>
  C7. The claim does not hold of the source for a pointer whose id is the name of a
  member of \<open>Object.prototype\<close>. The lookup \<open>users[id]\<close> walks the prototype chain, so for
  the id \<open>constructor\<close> it finds the function \<open>Object\<close> although the users table holds no
  account at all. The test \<open>!record\<close>, which is there to discard a stale pointer, then
  lets the pointer pass: \<open>loadSession\<close> returns an account with the id \<open>constructor\<close>,
  named after the id, for which there is no record, and the pointer stays in the storage.
\<close>

theorem loadSession_inherited_id:
  "loadUsers (Map.empty(SESSION_KEY \<mapsto> Encodes (JObj [(''id'', JStr ''constructor'')]))) = []
   \<and> fst (loadSession (Map.empty(SESSION_KEY \<mapsto> Encodes (JObj [(''id'', JStr ''constructor'')]))))
       = Some \<lparr>accountId = ''constructor'', displayName = Val (JStr ''constructor'')\<rparr>
   \<and> snd (loadSession (Map.empty(SESSION_KEY \<mapsto> Encodes (JObj [(''id'', JStr ''constructor'')]))))
         SESSION_KEY
       = Some (Encodes (JObj [(''id'', JStr ''constructor'')]))"
  by code_simp

theorem loadSession_inherited_id_witness:
  "map_option accountId
     (fst (loadSession (Map.empty(SESSION_KEY \<mapsto> Encodes (JObj [(''id'', JStr ''constructor'')])))))
     = Some ''constructor''
   \<and> snd (loadSession (Map.empty(SESSION_KEY \<mapsto> Encodes (JObj [(''id'', JStr ''constructor'')]))))
         SESSION_KEY
       \<noteq> None"
  using loadSession_inherited_id by simp

section \<open>Password hashing\<close>

text \<open>
  C9 (amended). \<open>hashPassword\<close> reads nothing but the password and what its host
  offers, so two runs on the same password in the same host give the same result. When
  the host has \<open>crypto.subtle\<close> and \<open>TextEncoder\<close>, the result is the digest of the UTF-8
  bytes of the password, each byte printed as two lower-case hexadecimal digits. Without
  them the result is the Base64 text of the UTF-8 bytes when \<open>btoa\<close> exists, and the
  password itself when it does not. The claim as written excludes the plaintext and every
  non-hexadecimal encoding; the two fallbacks of the source return exactly these.
\<close>

theorem hashPassword_forms:
  "(subtle_digest e = Some digest \<longrightarrow>
      hashPassword e pw = concat (map hex2 (digest (utf8 pw)))
      \<and> lower_hex (hashPassword e pw)
      \<and> length (hashPassword e pw) = 2 * length (digest (utf8 pw)))
   \<and> (subtle_digest e = None \<and> has_btoa e \<longrightarrow> hashPassword e pw = btoa (utf8 pw))
   \<and> (subtle_digest e = None \<and> \<not> has_btoa e \<longrightarrow> hashPassword e pw = pw)"
  by (simp add: hashPassword_def lower_hex_hex2 length_hex2)

theorem hashPassword_forms_witness:
  "hashPassword \<lparr>subtle_digest = Some (map (\<lambda>b. b + 1)), has_btoa = True\<rparr> ''hunter2''
     = concat (map hex2 (map (\<lambda>b. b + 1) (utf8 ''hunter2'')))
   \<and> lower_hex (hashPassword \<lparr>subtle_digest = Some (map (\<lambda>b. b + 1)), has_btoa = True\<rparr> ''hunter2'')
   \<and> length (hashPassword \<lparr>subtle_digest = Some (map (\<lambda>b. b + 1)), has_btoa = True\<rparr> ''hunter2'')
       = 2 * length (map (\<lambda>b. b + 1) (utf8 ''hunter2''))
   \<and> hashPassword \<lparr>subtle_digest = None, has_btoa = True\<rparr> ''hunter2'' = btoa (utf8 ''hunter2'')
   \<and> hashPassword \<lparr>subtle_digest = None, has_btoa = False\<rparr> ''hunter2'' = ''hunter2''"
proof -
  let ?f = "map (\<lambda>b. b + 1) :: byte list \<Rightarrow> byte list"
  have present: "subtle_digest \<lparr>subtle_digest = Some ?f, has_btoa = True\<rparr> = Some ?f"
    by simp
  have encoded: "subtle_digest \<lparr>subtle_digest = None, has_btoa = True\<rparr> = None
                 \<and> has_btoa \<lparr>subtle_digest = None, has_btoa = True\<rparr>"
    by simp
  have plain: "subtle_digest \<lparr>subtle_digest = None, has_btoa = False\<rparr> = None
               \<and> \<not> has_btoa \<lparr>subtle_digest = None, has_btoa = False\<rparr>"
    by simp
  from hashPassword_forms [of "\<lparr>subtle_digest = Some ?f, has_btoa = True\<rparr>" ?f "''hunter2''"]
    hashPassword_forms [of "\<lparr>subtle_digest = None, has_btoa = True\<rparr>" ?f "''hunter2''"]
    hashPassword_forms [of "\<lparr>subtle_digest = None, has_btoa = False\<rparr>" ?f "''hunter2''"]
    present encoded plain
  show ?thesis
    by blast
qed

theorem hashPassword_fallback_counterexample:
  "hashPassword \<lparr>subtle_digest = None, has_btoa = False\<rparr> ''hunter2'' = ''hunter2''
   \<and> hashPassword \<lparr>subtle_digest = None, has_btoa = True\<rparr> ''hunter2'' = ''aHVudGVyMg==''
   \<and> \<not> lower_hex ''aHVudGVyMg==''"
  by code_simp

section \<open>Loading tasks\<close>

text \<open>
  \<open>loadTasks\<close> always returns a list. It returns the empty list when there is no storage
  key for the account, when nothing or the empty string is stored under the key, when the
  stored text does not parse, and when it parses to something that is not an array.
  \<open>normalizeTask\<close> drops a record whose \<open>id\<close> or \<open>title\<close> is not a string.
\<close>

lemma loadTasks_unreadable:
  assumes "getTaskStorageKey acctId = None
     \<or> (\<exists>key. getTaskStorageKey acctId = Some key
          \<and> (ls key = None \<or> ls key = Some Blank \<or> ls key = Some Malformed
              \<or> (\<exists>j. ls key = Some (Encodes j) \<and> (\<forall>items. j \<noteq> JArr items))))"
  shows "loadTasks tv now ls acctId = []"
  using assms by (auto simp: loadTasks_def JSON_parse_def split: json.splits)

lemma normalizeTask_drops:
  assumes "string_of (member (Val raw) ''id'') = None
     \<or> string_of (member (Val raw) ''title'') = None"
  shows "normalizeTask tv now raw = Inr None"
  using assms by (auto simp: normalizeTask_def split: option.splits)

text \<open>
  C8. The claim does not hold of the source for every malformed \<open>dueAt\<close>.
  \<open>normalizeDate\<close> hands every truthy value to \<open>new Date\<close> and keeps what comes out as a
  valid date. A \<open>dueAt\<close> of \<open>true\<close> is read as the time value 1, so the record is kept
  with the due date \<open>1970-01-01\<close> and not with an absent one. A \<open>dueAt\<close> that is an object
  with a property \<open>toString\<close> of its own makes \<open>new Date\<close> throw a TypeError, which
  nothing catches before the \<open>catch\<close> of \<open>loadTasks\<close>: the whole collection comes back
  empty, the well-formed record beside it included.
\<close>

theorem loadTasks_malformed_dueAt:
  "loadTasks Date_parse_ISO ''2024-05-05T10:00:00.000Z''
     (Map.empty(''todo.tasks.v1.carol'' \<mapsto>
        Encodes (JArr [JObj [(''id'', JStr ''t1''), (''title'', JStr ''A''),
                             (''dueAt'', JBool True)]])))
     (Some ''carol'')
     = [\<lparr>taskId = ''t1'', title = ''A'', completed = False, description = None,
         createdAt = ''2024-05-05T10:00:00.000Z'', updatedAt = ''2024-05-05T10:00:00.000Z'',
         dueAt = Some ''1970-01-01'', priority = None\<rparr>]
   \<and> normalizeTask Date_parse_ISO ''2024-05-05T10:00:00.000Z''
         (JObj [(''id'', JStr ''t1''), (''title'', JStr ''A''),
                (''dueAt'', JObj [(''toString'', JNum 1)])])
       = Inl TypeError
   \<and> loadTasks Date_parse_ISO ''2024-05-05T10:00:00.000Z''
         (Map.empty(''todo.tasks.v1.carol'' \<mapsto>
            Encodes (JArr [JObj [(''id'', JStr ''t1''), (''title'', JStr ''A''),
                                 (''dueAt'', JObj [(''toString'', JNum 1)])],
                           JObj [(''id'', JStr ''t2''), (''title'', JStr ''B'')]])))
         (Some ''carol'')
       = []"
  by code_simp

theorem loadTasks_malformed_dueAt_witness:
  "map dueAt
     (loadTasks Date_parse_ISO ''2024-05-05T10:00:00.000Z''
        (Map.empty(''todo.tasks.v1.carol'' \<mapsto>
           Encodes (JArr [JObj [(''id'', JStr ''t1''), (''title'', JStr ''A''),
                                (''dueAt'', JBool True)]])))
        (Some ''carol''))
     = [Some ''1970-01-01'']
   \<and> length
        (loadTasks Date_parse_ISO ''2024-05-05T10:00:00.000Z''
           (Map.empty(''todo.tasks.v1.carol'' \<mapsto>
              Encodes (JArr [JObj [(''id'', JStr ''t1''), (''title'', JStr ''A''),
                                   (''dueAt'', JObj [(''toString'', JNum 1)])],
                             JObj [(''id'', JStr ''t2''), (''title'', JStr ''B'')]])))
           (Some ''carol''))
       = 0"
  using loadTasks_malformed_dueAt by simp

section \<open>Updating a task\<close>

text \<open>
  C2. When every task that carries the given id already has, in each field the patch
  names, the value the patch gives, \<open>updateTask\<close> changes nothing: the state it returns
  is the state it was given, so no \<open>updatedAt\<close> moves, the task list is the same and
  nothing is written to the storage. When an account is signed in and some task with the
  id differs from the patch in some field, the task list keeps its length, every such
  task gets \<open>updatedAt = now\<close>, every other task is untouched, and the whole list is
  written to the storage under the account's key.
  The update is offered to a signed-in account only: without one the source returns at
  once, and it holds no tasks then. \<open>updateTask\<close> of \<open>src/app.js\<close>, which knows no accounts,
  does the same with its one list and its one storage key.
\<close>

theorem updateTask_noop_or_bump:
  "((\<forall>t\<in>set (tasks st). taskId t = ident \<longrightarrow> (\<forall>en\<in>set nextFields. \<not> differs t en)) \<longrightarrow>
      updateTask now st ident nextFields = st)
   \<and> (currentAccount st = Some a \<and> accountId a \<noteq> []
        \<and> (\<exists>t\<in>set (tasks st). taskId t = ident \<and> (\<exists>en\<in>set nextFields. differs t en)) \<longrightarrow>
        length (tasks (updateTask now st ident nextFields)) = length (tasks st)
        \<and> (\<forall>n<length (tasks st).
              taskId (tasks st ! n) = ident \<and> (\<exists>en\<in>set nextFields. differs (tasks st ! n) en) \<longrightarrow>
              updatedAt (tasks (updateTask now st ident nextFields) ! n) = now)
        \<and> (\<forall>n<length (tasks st).
              taskId (tasks st ! n) \<noteq> ident \<or> (\<forall>en\<in>set nextFields. \<not> differs (tasks st ! n) en) \<longrightarrow>
              tasks (updateTask now st ident nextFields) ! n = tasks st ! n)
        \<and> storage (updateTask now st ident nextFields)
            = (storage st)(TASK_KEY_PREFIX @ accountId a \<mapsto>
                JSON_stringify (JArr (map task_json (tasks (updateTask now st ident nextFields))))))
   \<and> ((\<forall>t\<in>set ts. taskId t = ident \<longrightarrow> (\<forall>en\<in>set nextFields. \<not> differs t en)) \<longrightarrow>
      updateTask_app now (ts, ls) ident nextFields = (ts, ls))
   \<and> ((\<exists>t\<in>set ts. taskId t = ident \<and> (\<exists>en\<in>set nextFields. differs t en)) \<longrightarrow>
        length (fst (updateTask_app now (ts, ls) ident nextFields)) = length ts
        \<and> (\<forall>n<length ts.
              taskId (ts ! n) = ident \<and> (\<exists>en\<in>set nextFields. differs (ts ! n) en) \<longrightarrow>
              updatedAt (fst (updateTask_app now (ts, ls) ident nextFields) ! n) = now)
        \<and> (\<forall>n<length ts.
              taskId (ts ! n) \<noteq> ident \<or> (\<forall>en\<in>set nextFields. \<not> differs (ts ! n) en) \<longrightarrow>
              fst (updateTask_app now (ts, ls) ident nextFields) ! n = ts ! n)
        \<and> snd (updateTask_app now (ts, ls) ident nextFields)
            = ls(STORAGE_KEY \<mapsto>
                JSON_stringify (JArr (map task_json_app
                  (fst (updateTask_app now (ts, ls) ident nextFields))))))"
proof (intro conjI impI)
  assume same: "\<forall>t\<in>set (tasks st). taskId t = ident \<longrightarrow> (\<forall>en\<in>set nextFields. \<not> differs t en)"
  then have "\<forall>t\<in>set (tasks st). update_one now ident nextFields t = (t, False)"
    using update_one_same by blast
  then have "\<not> list_ex snd (map (update_one now ident nextFields) (tasks st))"
    by (simp add: list_ex_iff)
  then show "updateTask now st ident nextFields = st"
    by (simp add: updateTask_def Let_def)
next
  assume h: "currentAccount st = Some a \<and> accountId a \<noteq> []
        \<and> (\<exists>t\<in>set (tasks st). taskId t = ident \<and> (\<exists>en\<in>set nextFields. differs t en))"
  let ?results = "map (update_one now ident nextFields) (tasks st)"
  have "list_ex snd ?results"
    using h update_one_changed(1) by (fastforce simp: list_ex_iff)
  then have upd: "updateTask now st ident nextFields = saveTasks (st\<lparr>tasks := map fst ?results\<rparr>)"
    using h by (simp add: updateTask_def Let_def)
  have saved: "saveTasks (st\<lparr>tasks := map fst ?results\<rparr>)
        = st\<lparr>tasks := map fst ?results,
              storage := (storage st)(TASK_KEY_PREFIX @ accountId a \<mapsto>
                            JSON_stringify (JArr (map task_json (map fst ?results))))\<rparr>"
    using h saveTasks_signed_in [of "st\<lparr>tasks := map fst ?results\<rparr>" a] by simp
  have tasks': "tasks (updateTask now st ident nextFields) = map fst ?results"
    and storage': "storage (updateTask now st ident nextFields)
        = (storage st)(TASK_KEY_PREFIX @ accountId a \<mapsto>
             JSON_stringify (JArr (map task_json (map fst ?results))))"
    by (simp_all only: upd saved) simp_all
  show "length (tasks (updateTask now st ident nextFields)) = length (tasks st)"
    by (simp add: tasks')
  show "\<forall>n<length (tasks st).
          taskId (tasks st ! n) = ident \<and> (\<exists>en\<in>set nextFields. differs (tasks st ! n) en) \<longrightarrow>
          updatedAt (tasks (updateTask now st ident nextFields) ! n) = now"
    by (simp add: tasks' update_one_changed(2))
  show "\<forall>n<length (tasks st).
          taskId (tasks st ! n) \<noteq> ident \<or> (\<forall>en\<in>set nextFields. \<not> differs (tasks st ! n) en) \<longrightarrow>
          tasks (updateTask now st ident nextFields) ! n = tasks st ! n"
    by (simp add: tasks' update_one_same)
  show "storage (updateTask now st ident nextFields)
            = (storage st)(TASK_KEY_PREFIX @ accountId a \<mapsto>
                JSON_stringify (JArr (map task_json (tasks (updateTask now st ident nextFields)))))"
    by (simp only: storage' tasks')
next
  assume same: "\<forall>t\<in>set ts. taskId t = ident \<longrightarrow> (\<forall>en\<in>set nextFields. \<not> differs t en)"
  then have "\<forall>t\<in>set ts. update_one now ident nextFields t = (t, False)"
    using update_one_same by blast
  then have "\<not> list_ex snd (map (update_one now ident nextFields) ts)"
    by (simp add: list_ex_iff)
  then show "updateTask_app now (ts, ls) ident nextFields = (ts, ls)"
    by (simp add: updateTask_app_def Let_def)
next
  assume h: "\<exists>t\<in>set ts. taskId t = ident \<and> (\<exists>en\<in>set nextFields. differs t en)"
  let ?results = "map (update_one now ident nextFields) ts"
  have "list_ex snd ?results"
    using h update_one_changed(1) by (fastforce simp: list_ex_iff)
  then have upd: "updateTask_app now (ts, ls) ident nextFields
        = (map fst ?results, ls(STORAGE_KEY \<mapsto>
             JSON_stringify (JArr (map task_json_app (map fst ?results)))))"
    by (simp add: updateTask_app_def saveTasks_app_def Let_def)
  show "length (fst (updateTask_app now (ts, ls) ident nextFields)) = length ts"
    by (simp add: upd)
  show "\<forall>n<length ts.
          taskId (ts ! n) = ident \<and> (\<exists>en\<in>set nextFields. differs (ts ! n) en) \<longrightarrow>
          updatedAt (fst (updateTask_app now (ts, ls) ident nextFields) ! n) = now"
    by (simp add: upd update_one_changed(2))
  show "\<forall>n<length ts.
          taskId (ts ! n) \<noteq> ident \<or> (\<forall>en\<in>set nextFields. \<not> differs (ts ! n) en) \<longrightarrow>
          fst (updateTask_app now (ts, ls) ident nextFields) ! n = ts ! n"
    by (simp add: upd update_one_same)
  show "snd (updateTask_app now (ts, ls) ident nextFields)
            = ls(STORAGE_KEY \<mapsto>
                JSON_stringify (JArr (map task_json_app
                  (fst (updateTask_app now (ts, ls) ident nextFields)))))"
    by (simp only: upd fst_conv snd_conv)
qed

theorem updateTask_noop_or_bump_witness:
  "updateTask ''2024-03-05T12:00:00.000Z'' carol_state ''a1'' [E_completed False, E_title ''A'']
     = carol_state
   \<and> length (tasks (updateTask ''2024-03-05T12:00:00.000Z'' carol_state ''a1'' [E_completed True]))
       = length (tasks carol_state)
   \<and> updatedAt (tasks (updateTask ''2024-03-05T12:00:00.000Z'' carol_state ''a1''
                          [E_completed True]) ! 0) = ''2024-03-05T12:00:00.000Z''
   \<and> tasks (updateTask ''2024-03-05T12:00:00.000Z'' carol_state ''a1'' [E_completed True]) ! 1
       = task_B
   \<and> storage (updateTask ''2024-03-05T12:00:00.000Z'' carol_state ''a1'' [E_completed True])
       = (storage carol_state)(TASK_KEY_PREFIX @ accountId carol \<mapsto>
           JSON_stringify (JArr (map task_json
             (tasks (updateTask ''2024-03-05T12:00:00.000Z'' carol_state ''a1''
                       [E_completed True])))))
   \<and> updateTask_app ''2024-03-05T12:00:00.000Z'' ([task_A, task_B], Map.empty) ''a1''
         [E_completed False, E_title ''A'']
       = ([task_A, task_B], Map.empty)
   \<and> length (fst (updateTask_app ''2024-03-05T12:00:00.000Z'' ([task_A, task_B], Map.empty) ''a1''
                      [E_completed True])) = length [task_A, task_B]
   \<and> updatedAt (fst (updateTask_app ''2024-03-05T12:00:00.000Z'' ([task_A, task_B], Map.empty)
                         ''a1'' [E_completed True]) ! 0) = ''2024-03-05T12:00:00.000Z''
   \<and> fst (updateTask_app ''2024-03-05T12:00:00.000Z'' ([task_A, task_B], Map.empty) ''a1''
             [E_completed True]) ! 1 = task_B
   \<and> snd (updateTask_app ''2024-03-05T12:00:00.000Z'' ([task_A, task_B], Map.empty) ''a1''
             [E_completed True])
       = Map.empty(STORAGE_KEY \<mapsto>
           JSON_stringify (JArr (map task_json_app
             (fst (updateTask_app ''2024-03-05T12:00:00.000Z'' ([task_A, task_B], Map.empty)
                     ''a1'' [E_completed True])))))"
proof -
  let ?now = "''2024-03-05T12:00:00.000Z''"
  have same: "\<forall>t\<in>set (tasks carol_state). taskId t = ''a1'' \<longrightarrow>
                (\<forall>en\<in>set [E_completed False, E_title ''A'']. \<not> differs t en)"
    by (simp add: carol_state_def task_A_def task_B_def)
  have signed_in: "currentAccount carol_state = Some carol \<and> accountId carol \<noteq> []"
    by (simp add: carol_state_def carol_def)
  have changed: "\<exists>t\<in>set (tasks carol_state). taskId t = ''a1''
                   \<and> (\<exists>en\<in>set [E_completed True]. differs t en)"
    by (simp add: carol_state_def task_A_def)
  have first: "0 < length (tasks carol_state) \<and> taskId (tasks carol_state ! 0) = ''a1''
               \<and> (\<exists>en\<in>set [E_completed True]. differs (tasks carol_state ! 0) en)"
    by (simp add: carol_state_def task_A_def)
  have second: "1 < length (tasks carol_state) \<and> taskId (tasks carol_state ! 1) \<noteq> ''a1''
                \<and> tasks carol_state ! 1 = task_B"
    by (simp add: carol_state_def task_B_def)
  let ?ts = "[task_A, task_B]"
  let ?ls = "Map.empty :: localStorage"
  have same_app: "\<forall>t\<in>set ?ts. taskId t = ''a1'' \<longrightarrow>
                (\<forall>en\<in>set [E_completed False, E_title ''A'']. \<not> differs t en)"
    by (simp add: task_A_def task_B_def)
  have changed_app: "\<exists>t\<in>set ?ts. taskId t = ''a1''
                   \<and> (\<exists>en\<in>set [E_completed True]. differs t en)"
    by (simp add: task_A_def)
  have first_app: "0 < length ?ts \<and> taskId (?ts ! 0) = ''a1''
               \<and> (\<exists>en\<in>set [E_completed True]. differs (?ts ! 0) en)"
    by (simp add: task_A_def)
  have second_app: "1 < length ?ts \<and> taskId (?ts ! 1) \<noteq> ''a1''"
    by (simp add: task_B_def)
  note noop = updateTask_noop_or_bump
    [of carol_state "''a1''" "[E_completed False, E_title ''A'']" ?now carol ?ts ?ls]
  note bump = updateTask_noop_or_bump
    [of carol_state "''a1''" "[E_completed True]" ?now carol ?ts ?ls]
  note noop_app = noop [THEN conjunct2, THEN conjunct2, THEN conjunct1, THEN mp, OF same_app]
  note bump_app = bump [THEN conjunct2, THEN conjunct2, THEN conjunct2, THEN mp, OF changed_app]
  have f: "updateTask_app ?now (?ts, ?ls) ''a1'' [E_completed False, E_title ''A''] = (?ts, ?ls)"
    by (rule noop_app)
  have g: "length (fst (updateTask_app ?now (?ts, ?ls) ''a1'' [E_completed True])) = length ?ts"
    by (rule bump_app [THEN conjunct1])
  have i: "updatedAt (fst (updateTask_app ?now (?ts, ?ls) ''a1'' [E_completed True]) ! 0) = ?now"
    using bump_app [THEN conjunct2, THEN conjunct1, THEN spec, of 0] first_app by simp
  have "fst (updateTask_app ?now (?ts, ?ls) ''a1'' [E_completed True]) ! 1 = ?ts ! 1"
    using bump_app [THEN conjunct2, THEN conjunct2, THEN conjunct1, THEN spec, of 1] second_app
    by simp
  then have j: "fst (updateTask_app ?now (?ts, ?ls) ''a1'' [E_completed True]) ! 1 = task_B"
    by simp
  have k: "snd (updateTask_app ?now (?ts, ?ls) ''a1'' [E_completed True])
       = ?ls(STORAGE_KEY \<mapsto>
           JSON_stringify (JArr (map task_json_app
             (fst (updateTask_app ?now (?ts, ?ls) ''a1'' [E_completed True])))))"
    by (rule bump_app [THEN conjunct2, THEN conjunct2, THEN conjunct2])
  have a: "updateTask ?now carol_state ''a1'' [E_completed False, E_title ''A''] = carol_state"
    using noop same by blast
  have b: "length (tasks (updateTask ?now carol_state ''a1'' [E_completed True]))
             = length (tasks carol_state)"
    using bump signed_in changed by blast
  have c: "updatedAt (tasks (updateTask ?now carol_state ''a1'' [E_completed True]) ! 0) = ?now"
    using bump signed_in changed first by blast
  have "tasks (updateTask ?now carol_state ''a1'' [E_completed True]) ! 1 = tasks carol_state ! 1"
    using bump signed_in changed second by blast
  then have d: "tasks (updateTask ?now carol_state ''a1'' [E_completed True]) ! 1 = task_B"
    using second by simp
  have e: "storage (updateTask ?now carol_state ''a1'' [E_completed True])
       = (storage carol_state)(TASK_KEY_PREFIX @ accountId carol \<mapsto>
           JSON_stringify (JArr (map task_json
             (tasks (updateTask ?now carol_state ''a1'' [E_completed True])))))"
    using bump signed_in changed by blast
  show ?thesis
    by (intro conjI; fact)
qed

section \<open>The agenda window\<close>

text \<open>
  C3. With the agenda scope \<open>day\<close>, \<open>getVisibleTasks\<close> returns, in some order, exactly
  the tasks that pass the status filter and whose \<open>dueAt\<close> is present and equal to the
  anchor date, each as often as it occurs in the collection. With the scope \<open>week\<close>, when
  \<open>getWeekRangeISO\<close> gives the range of the anchor date, it returns exactly the tasks that
  pass the status filter and whose \<open>dueAt\<close> is present and lies between the start and the
  end of the range, both included, in the order of the date strings. With any other scope
  it returns the tasks that pass the status filter. Under \<open>day\<close> and \<open>week\<close> every task
  it returns has a \<open>dueAt\<close>. For the tasks \<open>A\<close>, due 2024-03-01, and \<open>B\<close>, without a
  due date, the status filter \<open>all\<close>, the scope \<open>day\<close> and the anchor 2024-03-01, the
  titles of the visible sequence are exactly \<open>A\<close>, whatever the other fields and the sort
  key are.
\<close>

theorem getVisibleTasks_agenda_window:
  "(agendaScope st = ''day'' \<longrightarrow>
      (\<exists>vis. getVisibleTasks tv z now st = Inr vis
         \<and> mset vis = filter_mset (\<lambda>t. status_keeps (currentFilter st) t \<and> has_due t
                                      \<and> dueAt t = Some (agendaDate st)) (mset (tasks st))))
   \<and> (agendaScope st = ''week'' \<and> getWeekRangeISO z now (agendaDate st) = Inr (startStr, endStr) \<longrightarrow>
      (\<exists>vis. getVisibleTasks tv z now st = Inr vis
         \<and> mset vis = filter_mset (\<lambda>t. status_keeps (currentFilter st) t \<and> has_due t
                                      \<and> startStr \<le> the (dueAt t) \<and> the (dueAt t) \<le> endStr)
                        (mset (tasks st))))
   \<and> (agendaScope st \<noteq> ''day'' \<and> agendaScope st \<noteq> ''week'' \<longrightarrow>
      (\<exists>vis. getVisibleTasks tv z now st = Inr vis
         \<and> mset vis = filter_mset (status_keeps (currentFilter st)) (mset (tasks st))))
   \<and> (agendaScope st = ''day'' \<or> agendaScope st = ''week'' \<longrightarrow>
      (\<forall>vis. getVisibleTasks tv z now st = Inr vis \<longrightarrow> (\<forall>t\<in>set vis. has_due t)))
   \<and> (tasks st = [a, b] \<and> title a = ''A'' \<and> dueAt a = Some ''2024-03-01''
        \<and> title b = ''B'' \<and> dueAt b = None
        \<and> currentFilter st = ''all'' \<and> agendaScope st = ''day'' \<and> agendaDate st = ''2024-03-01'' \<longrightarrow>
      (\<exists>vis. getVisibleTasks tv z now st = Inr vis \<and> map title vis = [''A'']))"
proof (intro conjI impI)
  assume "agendaScope st = ''day''"
  then have "getVisibleTasks tv z now st
      = Inr (sortTasks tv (currentSort st)
              (filter (\<lambda>t. has_due t \<and> dueAt t = Some (agendaDate st))
                 (filter (status_keeps (currentFilter st)) (tasks st))))"
    by (simp add: getVisibleTasks_def)
  then show "\<exists>vis. getVisibleTasks tv z now st = Inr vis
         \<and> mset vis = filter_mset (\<lambda>t. status_keeps (currentFilter st) t \<and> has_due t
                                      \<and> dueAt t = Some (agendaDate st)) (mset (tasks st))"
    by (simp add: mset_sortTasks)
next
  assume "agendaScope st = ''week'' \<and> getWeekRangeISO z now (agendaDate st) = Inr (startStr, endStr)"
  then have "getVisibleTasks tv z now st
      = Inr (sortTasks tv (currentSort st)
              (filter (\<lambda>t. has_due t \<and> startStr \<le> the (dueAt t) \<and> the (dueAt t) \<le> endStr)
                 (filter (status_keeps (currentFilter st)) (tasks st))))"
    by (simp add: getVisibleTasks_def day_week)
  then show "\<exists>vis. getVisibleTasks tv z now st = Inr vis
         \<and> mset vis = filter_mset (\<lambda>t. status_keeps (currentFilter st) t \<and> has_due t
                                      \<and> startStr \<le> the (dueAt t) \<and> the (dueAt t) \<le> endStr)
                        (mset (tasks st))"
    by (simp add: mset_sortTasks)
next
  assume "agendaScope st \<noteq> ''day'' \<and> agendaScope st \<noteq> ''week''"
  then show "\<exists>vis. getVisibleTasks tv z now st = Inr vis
         \<and> mset vis = filter_mset (status_keeps (currentFilter st)) (mset (tasks st))"
    by (simp add: getVisibleTasks_def mset_sortTasks)
next
  assume "agendaScope st = ''day'' \<or> agendaScope st = ''week''"
  then show "\<forall>vis. getVisibleTasks tv z now st = Inr vis \<longrightarrow> (\<forall>t\<in>set vis. has_due t)"
    by (auto simp: getVisibleTasks_def set_sortTasks split: sum.splits)
next
  assume "tasks st = [a, b] \<and> title a = ''A'' \<and> dueAt a = Some ''2024-03-01''
        \<and> title b = ''B'' \<and> dueAt b = None
        \<and> currentFilter st = ''all'' \<and> agendaScope st = ''day'' \<and> agendaDate st = ''2024-03-01''"
  then show "\<exists>vis. getVisibleTasks tv z now st = Inr vis \<and> map title vis = [''A'']"
    by (simp add: getVisibleTasks_def status_keeps_def has_due_def sortTasks_single)
qed

theorem getVisibleTasks_agenda_window_witness:
  "(\<exists>vis. getVisibleTasks Date_parse_ISO (fixed_zone 0) 1709596800000 carol_state = Inr vis
       \<and> mset vis = filter_mset (\<lambda>t. status_keeps (currentFilter carol_state) t \<and> has_due t
                                    \<and> dueAt t = Some (agendaDate carol_state))
                      (mset (tasks carol_state))
       \<and> (\<forall>t\<in>set vis. has_due t)
       \<and> map title vis = [''A''])
   \<and> getWeekRangeISO (fixed_zone 0) 1709596800000 ''2024-03-01'' = Inr (''2024-02-26'', ''2024-03-03'')
   \<and> (\<exists>vis. getVisibleTasks Date_parse_ISO (fixed_zone 0) 1709596800000 (carol_state\<lparr>agendaScope := ''week''\<rparr>)
              = Inr vis
       \<and> mset vis = filter_mset (\<lambda>t. status_keeps (currentFilter carol_state) t \<and> has_due t
                                    \<and> ''2024-02-26'' \<le> the (dueAt t)
                                    \<and> the (dueAt t) \<le> ''2024-03-03'')
                      (mset (tasks carol_state)))
   \<and> (\<exists>vis. getVisibleTasks Date_parse_ISO (fixed_zone 0) 1709596800000 (carol_state\<lparr>agendaScope := ''all''\<rparr>)
              = Inr vis
       \<and> mset vis = filter_mset (status_keeps (currentFilter carol_state)) (mset (tasks carol_state)))
   \<and> getVisibleTasks Date_parse_ISO (fixed_zone 0) 1709596800000 carol_state = Inr [task_A]"
proof -
  let ?now = "1709596800000 :: int"
  let ?week = "carol_state\<lparr>agendaScope := ''week''\<rparr>"
  let ?all = "carol_state\<lparr>agendaScope := ''all''\<rparr>"
  have day: "agendaScope carol_state = ''day''"
    by (simp add: carol_state_def)
  have range: "getWeekRangeISO (fixed_zone 0) ?now ''2024-03-01'' = Inr (''2024-02-26'', ''2024-03-03'')"
    by code_simp
  then have week: "agendaScope ?week = ''week''
                   \<and> getWeekRangeISO (fixed_zone 0) ?now (agendaDate ?week) = Inr (''2024-02-26'', ''2024-03-03'')"
    by (simp add: carol_state_def)
  have unrestricted: "agendaScope ?all \<noteq> ''day'' \<and> agendaScope ?all \<noteq> ''week''"
    by simp
  have scenario: "tasks carol_state = [task_A, task_B] \<and> title task_A = ''A''
      \<and> dueAt task_A = Some ''2024-03-01'' \<and> title task_B = ''B'' \<and> dueAt task_B = None
      \<and> currentFilter carol_state = ''all'' \<and> agendaScope carol_state = ''day''
      \<and> agendaDate carol_state = ''2024-03-01''"
    by (simp add: carol_state_def task_A_def task_B_def)
  have run: "getVisibleTasks Date_parse_ISO (fixed_zone 0) ?now carol_state = Inr [task_A]"
    by code_simp
  note a = getVisibleTasks_agenda_window
    [of carol_state Date_parse_ISO "fixed_zone 0" ?now "''2024-02-26''" "''2024-03-03''" task_A task_B]
  note w = getVisibleTasks_agenda_window
    [of ?week Date_parse_ISO "fixed_zone 0" ?now "''2024-02-26''" "''2024-03-03''" task_A task_B]
  note u = getVisibleTasks_agenda_window
    [of ?all Date_parse_ISO "fixed_zone 0" ?now "''2024-02-26''" "''2024-03-03''" task_A task_B]
  note on_day = a [THEN conjunct1, THEN mp, OF day]
  note dated = a [THEN conjunct2, THEN conjunct2, THEN conjunct2, THEN conjunct1, THEN mp,
                  OF disjI1, OF day]
  note titled = a [THEN conjunct2, THEN conjunct2, THEN conjunct2, THEN conjunct2, THEN mp,
                   OF scenario]
  note in_week = w [THEN conjunct2, THEN conjunct1, THEN mp, OF week]
  note in_all = u [THEN conjunct2, THEN conjunct2, THEN conjunct1, THEN mp, OF unrestricted]
  from on_day obtain vis where vis: "getVisibleTasks Date_parse_ISO (fixed_zone 0) ?now carol_state = Inr vis"
    "mset vis = filter_mset (\<lambda>t. status_keeps (currentFilter carol_state) t \<and> has_due t
                                \<and> dueAt t = Some (agendaDate carol_state))
                  (mset (tasks carol_state))"
    by (elim exE conjE)
  have all_dated: "\<forall>t\<in>set vis. has_due t"
    using dated vis(1) by (elim allE [of _ vis] impE)
  from titled vis(1) have titles: "map title vis = [''A'']"
    by (elim exE conjE) simp
  have first: "\<exists>vis. getVisibleTasks Date_parse_ISO (fixed_zone 0) ?now carol_state = Inr vis
       \<and> mset vis = filter_mset (\<lambda>t. status_keeps (currentFilter carol_state) t \<and> has_due t
                                    \<and> dueAt t = Some (agendaDate carol_state))
                      (mset (tasks carol_state))
       \<and> (\<forall>t\<in>set vis. has_due t)
       \<and> map title vis = [''A'']"
    using vis all_dated titles by (intro exI [of _ vis] conjI)
  from in_week have second: "\<exists>vis. getVisibleTasks Date_parse_ISO (fixed_zone 0) ?now ?week = Inr vis
       \<and> mset vis = filter_mset (\<lambda>t. status_keeps (currentFilter carol_state) t \<and> has_due t
                                    \<and> ''2024-02-26'' \<le> the (dueAt t)
                                    \<and> the (dueAt t) \<le> ''2024-03-03'')
                      (mset (tasks carol_state))"
    by simp
  from in_all have third: "\<exists>vis. getVisibleTasks Date_parse_ISO (fixed_zone 0) ?now ?all = Inr vis
       \<and> mset vis = filter_mset (status_keeps (currentFilter carol_state)) (mset (tasks carol_state))"
    by simp
  from first range second third run show ?thesis
    by (intro conjI)
qed

section \<open>Sorting by due date\<close>

text \<open>
  C1. Under the sort key \<open>dueAt\<close>, for every list of tasks whose time stamps and due
  dates the host can read as dates, \<open>sortTasks\<close> returns a permutation of the list in
  which, for any two tasks, the one that stands first satisfies \<open>due_order\<close> towards the
  other: two dated tasks stand in ascending order of their due dates, no task without a
  due date stands before a task that has one, and of two tasks with equal due dates, or
  both without, the one created later stands first. The same holds of \<open>sortTasks\<close> of
  \<open>src/app.js\<close>, and the visible sequence that \<open>getVisibleTasks\<close> returns is ordered in
  the same way.
\<close>

theorem sortTasks_dueAt_order:
  "((\<forall>t\<in>set xs. well_dated tv t) \<longrightarrow>
      mset (sortTasks tv ''dueAt'' xs) = mset xs
      \<and> sorted_wrt (due_order tv) (sortTasks tv ''dueAt'' xs)
      \<and> mset (sortTasks_app tv xs ''dueAt'') = mset xs
      \<and> sorted_wrt (due_order tv) (sortTasks_app tv xs ''dueAt''))
   \<and> (currentSort st = ''dueAt'' \<and> (\<forall>t\<in>set (tasks st). well_dated tv t)
        \<and> getVisibleTasks tv z now st = Inr vis \<longrightarrow>
      sorted_wrt (due_order tv) vis)"
proof (intro conjI impI)
  assume dated: "\<forall>t\<in>set xs. well_dated tv t"
  from dated show "sorted_wrt (due_order tv) (sortTasks tv ''dueAt'' xs)"
    by (rule sorted_wrt_sortTasks_dueAt)
  show "mset (sortTasks tv ''dueAt'' xs) = mset xs"
    by (rule mset_sortTasks)
  show "mset (sortTasks_app tv xs ''dueAt'') = mset xs"
    by (rule mset_sortTasks_app)
  from dated show "sorted_wrt (due_order tv) (sortTasks_app tv xs ''dueAt'')"
    by (rule sorted_wrt_sortTasks_app_dueAt)
next
  assume h: "currentSort st = ''dueAt'' \<and> (\<forall>t\<in>set (tasks st). well_dated tv t)
        \<and> getVisibleTasks tv z now st = Inr vis"
  then obtain ys where ys: "set ys \<subseteq> set (tasks st)" "vis = sortTasks tv ''dueAt'' ys"
    using getVisibleTasks_subset [of tv z now st vis] by auto
  then have "\<forall>t\<in>set ys. well_dated tv t"
    using h by auto
  then show "sorted_wrt (due_order tv) vis"
    unfolding ys(2) by (rule sorted_wrt_sortTasks_dueAt)
qed

theorem sortTasks_dueAt_order_witness:
  "well_dated Date_parse_ISO task_B \<and> well_dated Date_parse_ISO task_A
   \<and> well_dated Date_parse_ISO (task_A\<lparr>taskId := ''c3'', dueAt := Some ''2024-02-20''\<rparr>)
   \<and> sortTasks Date_parse_ISO ''dueAt''
        [task_B, task_A, task_A\<lparr>taskId := ''c3'', dueAt := Some ''2024-02-20''\<rparr>]
       = [task_A\<lparr>taskId := ''c3'', dueAt := Some ''2024-02-20''\<rparr>, task_A, task_B]
   \<and> mset (sortTasks Date_parse_ISO ''dueAt''
              [task_B, task_A, task_A\<lparr>taskId := ''c3'', dueAt := Some ''2024-02-20''\<rparr>])
       = mset [task_B, task_A, task_A\<lparr>taskId := ''c3'', dueAt := Some ''2024-02-20''\<rparr>]
   \<and> sorted_wrt (due_order Date_parse_ISO)
        (sortTasks Date_parse_ISO ''dueAt''
           [task_B, task_A, task_A\<lparr>taskId := ''c3'', dueAt := Some ''2024-02-20''\<rparr>])
   \<and> sortTasks_app Date_parse_ISO
        [task_B, task_A, task_A\<lparr>taskId := ''c3'', dueAt := Some ''2024-02-20''\<rparr>] ''dueAt''
       = [task_A\<lparr>taskId := ''c3'', dueAt := Some ''2024-02-20''\<rparr>, task_A, task_B]
   \<and> mset (sortTasks_app Date_parse_ISO
              [task_B, task_A, task_A\<lparr>taskId := ''c3'', dueAt := Some ''2024-02-20''\<rparr>] ''dueAt'')
       = mset [task_B, task_A, task_A\<lparr>taskId := ''c3'', dueAt := Some ''2024-02-20''\<rparr>]
   \<and> sorted_wrt (due_order Date_parse_ISO)
        (sortTasks_app Date_parse_ISO
           [task_B, task_A, task_A\<lparr>taskId := ''c3'', dueAt := Some ''2024-02-20''\<rparr>] ''dueAt'')
   \<and> getVisibleTasks Date_parse_ISO (fixed_zone 0) 1709596800000
        (carol_state\<lparr>tasks := [task_B, task_A], currentSort := ''dueAt'', agendaScope := ''all''\<rparr>)
       = Inr [task_A, task_B]
   \<and> sorted_wrt (due_order Date_parse_ISO) [task_A, task_B]"
proof -
  let ?xs = "[task_B, task_A, task_A\<lparr>taskId := ''c3'', dueAt := Some ''2024-02-20''\<rparr>]"
  let ?st = "carol_state\<lparr>tasks := [task_B, task_A], currentSort := ''dueAt'', agendaScope := ''all''\<rparr>"
  have dated: "\<forall>t\<in>set ?xs. well_dated Date_parse_ISO t"
    by code_simp
  have run: "sortTasks Date_parse_ISO ''dueAt'' ?xs
             = [task_A\<lparr>taskId := ''c3'', dueAt := Some ''2024-02-20''\<rparr>, task_A, task_B]"
    by code_simp
  have run_app: "sortTasks_app Date_parse_ISO ?xs ''dueAt''
             = [task_A\<lparr>taskId := ''c3'', dueAt := Some ''2024-02-20''\<rparr>, task_A, task_B]"
    by code_simp
  have dated': "\<forall>t\<in>set (tasks ?st). well_dated Date_parse_ISO t"
    using dated by simp
  have visible: "getVisibleTasks Date_parse_ISO (fixed_zone 0) 1709596800000 ?st = Inr [task_A, task_B]"
    by code_simp
  have key: "currentSort ?st = ''dueAt''"
    by simp
  note sorted = sortTasks_dueAt_order
    [of ?xs Date_parse_ISO ?st "fixed_zone 0" 1709596800000 "[task_A, task_B]", THEN conjunct1, THEN mp, OF dated]
  note shown = sortTasks_dueAt_order
    [of ?xs Date_parse_ISO ?st "fixed_zone 0" 1709596800000 "[task_A, task_B]", THEN conjunct2, THEN mp,
     OF conjI, OF key, OF conjI, OF dated' visible]
  from dated have each: "well_dated Date_parse_ISO task_B" "well_dated Date_parse_ISO task_A"
    "well_dated Date_parse_ISO (task_A\<lparr>taskId := ''c3'', dueAt := Some ''2024-02-20''\<rparr>)"
    by simp_all
  from each run run_app sorted visible shown show ?thesis
    by (intro conjI) (elim conjE, assumption)+
qed

section \<open>The week range\<close>

text \<open>
  Where the zone keeps one offset from UTC, a whole number of minutes, and the week lies
  in the years 0 to 9999, \<open>getWeekRangeISO\<close> is right: applied to the \<open>YYYY-MM-DD\<close>
  string of a day \<open>n\<close> it returns the strings of the Monday on or before \<open>n\<close> and of the
  Sunday six days later, whatever the time of the call is.
\<close>

lemma getWeekRangeISO_fixed_zone:
  assumes "four_digit_year n" and "four_digit_year (week_start n)"
    and "four_digit_year (week_start n + 6)" and "\<bar>c\<bar> \<le> 1440"
  shows "getWeekRangeISO (fixed_zone (c * msPerMinute)) now (isoDate n)
         = Inr (isoDate (week_start n), isoDate (week_start n + 6))"
    and "week_start n \<le> n" and "n \<le> week_start n + 6"
    and "WeekDay (week_start n * msPerDay) = 1"
    and "WeekDay ((week_start n + 6) * msPerDay) = 0"
    and "WeekDay (n * msPerDay) = 0 \<Longrightarrow> week_start n + 6 = n"
proof -
  show "getWeekRangeISO (fixed_zone (c * msPerMinute)) now (isoDate n)
        = Inr (isoDate (week_start n), isoDate (week_start n + 6))"
    by (rule getWeekRangeISO_of_day [OF assms])
  show "week_start n \<le> n" "n \<le> week_start n + 6"
    by (rule week_start_facts)+
  show "WeekDay (week_start n * msPerDay) = 1"
    by (simp add: WeekDay_def Day_days week_start_facts(3))
  show "WeekDay ((week_start n + 6) * msPerDay) = 0"
    by (simp only: WeekDay_def Day_days week_start_facts(4))
  assume "WeekDay (n * msPerDay) = 0"
  then show "week_start n + 6 = n"
    using week_start_delta [of n] by (simp add: WeekDay_def Day_days)
qed

lemma getWeekRangeISO_examples:
  "getWeekRangeISO (fixed_zone 0) 1709596800000 ''2024-01-01'' = Inr (''2024-01-01'', ''2024-01-07'')"
  "getWeekRangeISO (fixed_zone 0) 1709596800000 ''2024-01-07'' = Inr (''2024-01-01'', ''2024-01-07'')"
  "getWeekRangeISO (fixed_zone 0) 1709596800000 ''9999-12-31'' = Inr (''9999-12-27'', ''+010000-01'')"
  by code_simp+

text \<open>
  C4. The claim does not hold of the source in a zone with daylight saving time.
  \<open>toISODateLocal\<close> moves its copy of the date forward by the zone offset, counted in
  minutes of local time, and reads the UTC date of the result. When the clock is put
  forward inside that stretch, the copy comes out an hour short and local midnight prints
  as the day before. In Sydney the clock is put forward at 02:00 on Sunday 6 October
  2024: for the anchor \<open>2024-10-06\<close>, the last day of its week, \<open>getWeekRangeISO\<close>
  returns \<open>2024-09-30\<close> to \<open>2024-10-05\<close>, a range that ends on the Saturday and does not
  contain the anchor. \<open>toISODateLocal\<close> turns local midnight of 6 October into
  \<open>2024-10-05\<close>, and \<open>addDaysISO\<close> gives \<open>2024-10-05\<close> for the day after
  \<open>2024-10-05\<close>. With the offset of ten hours kept throughout, the range is
  \<open>2024-09-30\<close> to \<open>2024-10-06\<close>.
\<close>

theorem getWeekRangeISO_daylight_saving:
  "getWeekRangeISO Australia_Sydney_2024 1728172800000 ''2024-10-06''
     = Inr (''2024-09-30'', ''2024-10-05'')
   \<and> toISODateLocal Australia_Sydney_2024
         (parseISOToLocalDate Australia_Sydney_2024 1728172800000 ''2024-10-06'')
       = Inr ''2024-10-05''
   \<and> addDaysISO Australia_Sydney_2024 1728172800000 ''2024-10-05'' 1 = Inr ''2024-10-05''
   \<and> getWeekRangeISO (fixed_zone 36000000) 1728172800000 ''2024-10-06''
       = Inr (''2024-09-30'', ''2024-10-06'')"
  by code_simp

end
